theory Spec2Isabelle
  imports Complex_Main
begin

section \<open>Numeric conventions\<close>

text \<open>
  The metrics engine of \<^verbatim>\<open>metrics.py\<close> works on NumPy arrays of finite samples.
  Samples and all intermediate quantities are modelled as real numbers, so rounding of
  the binary floating-point operations is idealised away.  The non-finite values that
  Python can still produce from finite samples (the mean of an empty array, a library
  result of minus infinity) are kept apart in the type \<open>pyfloat\<close>.  Python exceptions are
  values of \<open>py_error\<close>; every constructor stands for an instance of \<^verbatim>\<open>Exception\<close>, so
  an \<^verbatim>\<open>except Exception\<close> clause catches each of them.
\<close>

datatype py_error = ValueError | OverflowError | LibraryError string

datatype pyfloat = Fin real | NaN | PosInf | NegInf

text \<open>\<^verbatim>\<open>math.isfinite\<close> / \<^verbatim>\<open>np.isfinite\<close>.\<close>

fun isfinite :: "pyfloat \<Rightarrow> bool" where
  "isfinite (Fin _) = True"
| "isfinite _ = False"

text \<open>Float subtraction, with the IEEE rules for the non-finite operands.\<close>

fun pf_sub :: "pyfloat \<Rightarrow> pyfloat \<Rightarrow> pyfloat" where
  "pf_sub (Fin a) (Fin b) = Fin (a - b)"
| "pf_sub NaN _ = NaN"
| "pf_sub _ NaN = NaN"
| "pf_sub PosInf PosInf = NaN"
| "pf_sub NegInf NegInf = NaN"
| "pf_sub PosInf _ = PosInf"
| "pf_sub NegInf _ = NegInf"
| "pf_sub (Fin _) PosInf = NegInf"
| "pf_sub (Fin _) NegInf = PosInf"

text \<open>The comparison \<^verbatim>\<open>x < c\<close> of a float with a finite constant; false for NaN.\<close>

fun pf_less :: "pyfloat \<Rightarrow> real \<Rightarrow> bool" where
  "pf_less (Fin a) c = (a < c)"
| "pf_less NegInf c = True"
| "pf_less PosInf c = False"
| "pf_less NaN c = False"

text \<open>\<^verbatim>\<open>abs\<close> of a float.\<close>

fun pf_abs :: "pyfloat \<Rightarrow> pyfloat" where
  "pf_abs (Fin a) = Fin \<bar>a\<bar>"
| "pf_abs NaN = NaN"
| "pf_abs PosInf = PosInf"
| "pf_abs NegInf = PosInf"

text \<open>The guard constant \<^verbatim>\<open>1e-12\<close>.\<close>

definition eps :: real where
  "eps = 1 / 10 ^ 12"

text \<open>Python's \<^verbatim>\<open>int(x)\<close> on a finite float: truncation towards zero.\<close>

definition py_int :: "real \<Rightarrow> int" where
  "py_int r = (if 0 \<le> r then \<lfloor>r\<rfloor> else \<lceil>r\<rceil>)"

text \<open>
  \<^verbatim>\<open>np.mean\<close> of a non-empty array.  Every caller below guards the empty case, where
  NumPy returns NaN.
\<close>

definition np_mean :: "real list \<Rightarrow> real" where
  "np_mean xs = sum_list xs / real (length xs)"

text \<open>\<^verbatim>\<open>np.max\<close> of a non-empty array; on an empty one NumPy raises \<^verbatim>\<open>ValueError\<close>.\<close>

definition np_max :: "real list \<Rightarrow> real" where
  "np_max xs = Max (set xs)"

section \<open>Level metrics\<close>

text \<open>
  \<^verbatim>\<open>
  def rms_dbfs(y):
      rms = np.sqrt(np.mean(np.square(y))) + 1e-12
      return 20 * math.log10(rms)
  \<close>
  On an empty array \<^verbatim>\<open>np.mean\<close> is NaN, which \<^verbatim>\<open>np.sqrt\<close>, the addition and
  \<^verbatim>\<open>math.log10\<close> pass on.
\<close>

definition rms_lin :: "real list \<Rightarrow> real" where
  "rms_lin y = sqrt (np_mean (map (\<lambda>v. v ^ 2) y))"

definition rms_dbfs :: "real list \<Rightarrow> pyfloat" where
  "rms_dbfs y = (if y = [] then NaN else Fin (20 * log 10 (rms_lin y + eps)))"

text \<open>
  \<^verbatim>\<open>
  def peak_dbfs(y):
      peak = np.max(np.abs(y)) + 1e-12
      return 20 * math.log10(peak)
  \<close>
\<close>

definition peak_lin :: "real list \<Rightarrow> real" where
  "peak_lin y = np_max (map abs y)"

definition peak_dbfs :: "real list \<Rightarrow> py_error + pyfloat" where
  "peak_dbfs y = (if y = [] then Inl ValueError else Inr (Fin (20 * log 10 (peak_lin y + eps))))"

text \<open>\<^verbatim>\<open>crest_db(peak_db, rms_db) = peak_db - rms_db\<close>.\<close>

definition crest_db :: "pyfloat \<Rightarrow> pyfloat \<Rightarrow> pyfloat" where
  "crest_db peak_db rms_db = pf_sub peak_db rms_db"

section \<open>True peak\<close>

text \<open>
  \<^verbatim>\<open>np.linspace(start, stop, num)\<close> with the end point included, and
  \<^verbatim>\<open>np.interp(t, arange(n), x)\<close>: piecewise linear between the samples, clamped to the
  first and last sample outside \<open>[0, n - 1]\<close>.
\<close>

definition np_linspace :: "real \<Rightarrow> real \<Rightarrow> nat \<Rightarrow> real list" where
  "np_linspace start stop num =
     (if num = 1 then [start]
      else map (\<lambda>j. start + real j * ((stop - start) / real (num - 1))) [0..<num])"

definition np_interp :: "real \<Rightarrow> real list \<Rightarrow> real" where
  "np_interp t x =
     (let n = length x; i = nat \<lfloor>t\<rfloor> in
      if t \<le> 0 then x ! 0
      else if real (n - 1) \<le> t then x ! (n - 1)
      else x ! i + (t - real i) * (x ! (i + 1) - x ! i))"

text \<open>
  \<^verbatim>\<open>
  def true_peak_dbfs(y, sr, os_factor=4):
      x = np.asarray(y, np.float64)
      if x.size == 0:
          return None
      peak = float(np.max(np.abs(x)))
      if os_factor > 1 and x.size > 1:
          t = np.arange(x.size, dtype=np.float64)
          t_up = np.linspace(0.0, x.size - 1.0, x.size * os_factor)
          x_up = np.interp(t_up, t, x)
          peak = max(peak, float(np.max(np.abs(x_up))))
      if not math.isfinite(peak) or peak <= 0:
          return None
      return 20.0 * math.log10(peak)
  \<close>
  With finite samples the peak is finite, so only \<^verbatim>\<open>peak <= 0\<close> can fire.
\<close>

definition x_up :: "real list \<Rightarrow> nat \<Rightarrow> real list" where
  "x_up x os_factor =
     map (\<lambda>t. np_interp t x) (np_linspace 0 (real (length x) - 1) (length x * os_factor))"

definition true_peak_lin :: "real list \<Rightarrow> nat \<Rightarrow> real" where
  "true_peak_lin x os_factor =
     (let peak = np_max (map abs x) in
      if 1 < os_factor \<and> 1 < length x
      then max peak (np_max (map abs (x_up x os_factor)))
      else peak)"

definition true_peak_dbfs :: "real list \<Rightarrow> int \<Rightarrow> nat \<Rightarrow> real option" where
  "true_peak_dbfs y sr os_factor =
     (if y = [] then None
      else let peak = true_peak_lin y os_factor in
           if peak \<le> 0 then None else Some (20 * log 10 peak))"

section \<open>Hybrid SNR estimator\<close>

subsection \<open>NumPy statistics\<close>

text \<open>
  \<^verbatim>\<open>np.percentile(a, q)\<close> with the default linear interpolation: on the sorted data the
  virtual index is \<open>q / 100 * (n - 1)\<close>, the result interpolates between the elements at
  its floor and at the next index (clipped to the last one).  Callers pass a non-empty
  array.
\<close>

definition np_percentile :: "real list \<Rightarrow> real \<Rightarrow> real" where
  "np_percentile a q =
     (let s = sort a; n = length s;
          v = q / 100 * real (n - 1);
          lo = nat \<lfloor>v\<rfloor>;
          hi = min (lo + 1) (n - 1);
          g = v - real lo
      in s ! lo + (s ! hi - s ! lo) * g)"

text \<open>
  \<^verbatim>\<open>np.median\<close> of a non-empty array: the middle element of the sorted data, or the mean
  of the two middle elements when the length is even.
\<close>

definition np_median :: "real list \<Rightarrow> real" where
  "np_median a =
     (let s = sort a; n = length s in
      if odd n then s ! (n div 2) else (s ! (n div 2 - 1) + s ! (n div 2)) / 2)"

text \<open>\<^verbatim>\<open>np.argmax\<close> of a non-empty array: the first index of the maximum.\<close>

definition np_argmax :: "real list \<Rightarrow> nat" where
  "np_argmax xs = length (takeWhile (\<lambda>v. v \<noteq> np_max xs) xs)"

text \<open>The slice \<^verbatim>\<open>xs[a:b]\<close> for non-negative bounds.\<close>

definition slice :: "'a list \<Rightarrow> nat \<Rightarrow> nat \<Rightarrow> 'a list" where
  "slice xs a b = take (b - a) (drop a xs)"

text \<open>\<^verbatim>\<open>range(0, n, step)\<close> for a positive step.\<close>

definition py_range :: "nat \<Rightarrow> nat \<Rightarrow> nat list" where
  "py_range n step = map (\<lambda>j. j * step) [0..<(n + step - 1) div step]"

subsection \<open>Time-domain percentile method\<close>

text \<open>
  \<^verbatim>\<open>
  frame = max(1, int(0.05 * sr))  # 50 ms frame
  frames = np.array([np.mean(y[i:i + frame] ** 2) for i in range(0, n, frame)], dtype=float)
  frames = frames[frames > 0]
  if len(frames) >= 10:
      p10 = np.percentile(frames, 10)
      p20 = np.percentile(frames, 20)
      p80 = np.percentile(frames, 80)
      p90 = np.percentile(frames, 90)
      dyn_db = 10.0 * np.log10((p90 + 1e-12) / (p10 + 1e-12))
      low_count = int(np.sum(frames <= p20))
      high_count = int(np.sum(frames >= p80))
      if dyn_db >= 6.0 and low_count >= 5 and high_count >= 5:
          noise_power = float(np.mean(frames[frames <= p20])) + 1e-12
          sig_power = float(np.mean(frames[frames >= p80])) + 1e-12
          return 10.0 * np.log10(sig_power / noise_power)
  \<close>
  The path either returns a value or falls through to the spectral method; falling
  through is the result \<open>None\<close> of \<open>snr_time_domain\<close>.
\<close>

definition frame_len :: "int \<Rightarrow> nat" where
  "frame_len sr = nat (max 1 (py_int (0.05 * real_of_int sr)))"

definition frame_energies :: "real list \<Rightarrow> int \<Rightarrow> real list" where
  "frame_energies y sr =
     map (\<lambda>i. np_mean (map (\<lambda>v. v ^ 2) (slice y i (i + frame_len sr))))
         (py_range (length y) (frame_len sr))"

definition frames :: "real list \<Rightarrow> int \<Rightarrow> real list" where
  "frames y sr = filter (\<lambda>e. 0 < e) (frame_energies y sr)"

definition dyn_db :: "real list \<Rightarrow> real" where
  "dyn_db fr = 10 * log 10 ((np_percentile fr 90 + eps) / (np_percentile fr 10 + eps))"

definition noise_frames :: "real list \<Rightarrow> real list" where
  "noise_frames fr = filter (\<lambda>e. e \<le> np_percentile fr 20) fr"

definition signal_frames :: "real list \<Rightarrow> real list" where
  "signal_frames fr = filter (\<lambda>e. np_percentile fr 80 \<le> e) fr"

definition snr_time_domain :: "real list \<Rightarrow> int \<Rightarrow> real option" where
  "snr_time_domain y sr =
     (let fr = frames y sr in
      if 10 \<le> length fr then
        let low_count = length (noise_frames fr);
            high_count = length (signal_frames fr)
        in if 6 \<le> dyn_db fr \<and> 5 \<le> low_count \<and> 5 \<le> high_count then
             let noise_power = np_mean (noise_frames fr) + eps;
                 sig_power = np_mean (signal_frames fr) + eps
             in Some (10 * log 10 (sig_power / noise_power))
           else None
      else None)"

subsection \<open>Spectral method\<close>

text \<open>
  \<^verbatim>\<open>np.hanning(M)\<close> is \<^verbatim>\<open>0.5 + 0.5*cos(pi*n/(M-1))\<close> for \<^verbatim>\<open>n = arange(1-M, M, 2)\<close>, and
  \<^verbatim>\<open>ones(1)\<close> for \<open>M = 1\<close>.  \<^verbatim>\<open>np.fft.rfft\<close> of \<open>n\<close> real samples gives the bins
  \<open>0 .. n div 2\<close> of the discrete Fourier transform, kept here as real and imaginary part.
\<close>

definition np_hanning :: "nat \<Rightarrow> real list" where
  "np_hanning M =
     (if M = 1 then [1]
      else map (\<lambda>j. 1 / 2 + 1 / 2 * cos (pi * (1 - real M + 2 * real j) / (real M - 1))) [0..<M])"

definition rfft_re :: "real list \<Rightarrow> nat \<Rightarrow> real" where
  "rfft_re a k = (\<Sum>j<length a. a ! j * cos (2 * pi * real j * real k / real (length a)))"

definition rfft_im :: "real list \<Rightarrow> nat \<Rightarrow> real" where
  "rfft_im a k = - (\<Sum>j<length a. a ! j * sin (2 * pi * real j * real k / real (length a)))"

text \<open>
  \<^verbatim>\<open>
  nfft = 1 << int(np.floor(np.log2(min(n, 262144))))
  if nfft < 4096:
      return None
  x = y[:nfft].astype(np.float64)
  w = np.hanning(nfft)
  X = np.fft.rfft(x * w)
  psd = (X.real ** 2 + X.imag ** 2) / (np.sum(w ** 2) + 1e-12)
  psd[0] = 0.0
  pk = int(np.argmax(psd))
  med = float(np.median(psd[1:]))
  if med <= 0 or psd[pk] < 20.0 * med:
      return None
  sig = psd[max(1, pk - 1): pk + 2].sum()
  noise = psd.sum() - sig + 1e-12
  return 10.0 * np.log10(sig / noise)
  \<close>
  For an empty buffer \<^verbatim>\<open>np.log2(0)\<close> is minus infinity, which \<^verbatim>\<open>int\<close> refuses with
  \<^verbatim>\<open>OverflowError\<close>.
\<close>

definition nfft_of :: "nat \<Rightarrow> nat" where
  "nfft_of n = 2 ^ nat \<lfloor>log 2 (real (min n 262144))\<rfloor>"

definition psd_of :: "real list \<Rightarrow> real list" where
  "psd_of y =
     (let nfft = nfft_of (length y);
          x = take nfft y;
          w = np_hanning nfft;
          xw = map (\<lambda>(a, b). a * b) (zip x w);
          d = sum_list (map (\<lambda>v. v ^ 2) w) + eps
      in (map (\<lambda>k. ((rfft_re xw k) ^ 2 + (rfft_im xw k) ^ 2) / d) [0..<nfft div 2 + 1]) [0 := 0])"

definition tone_sig :: "real list \<Rightarrow> real" where
  "tone_sig psd = (let pk = np_argmax psd in sum_list (slice psd (max 1 (pk - 1)) (pk + 2)))"

definition tone_noise :: "real list \<Rightarrow> real" where
  "tone_noise psd = sum_list psd - tone_sig psd + eps"

definition snr_spectral :: "real list \<Rightarrow> py_error + real option" where
  "snr_spectral y =
     (if length y = 0 then Inl OverflowError
      else if nfft_of (length y) < 4096 then Inr None
      else let psd = psd_of y;
               pk = np_argmax psd;
               med = np_median (drop 1 psd)
           in if med \<le> 0 \<or> psd ! pk < 20 * med then Inr None
              else Inr (Some (10 * log 10 (tone_sig psd / tone_noise psd))))"

subsection \<open>The estimator\<close>

text \<open>
  \<^verbatim>\<open>
  def snr_db(y, sr):
      n = len(y)
      if n < int(0.5 * sr):  # do not evaluate if shorter than 0.5 s
          return None
      ... time-domain percentile method ...
      ... spectral method ...
  \<close>
\<close>

definition snr_db :: "real list \<Rightarrow> int \<Rightarrow> py_error + real option" where
  "snr_db y sr =
     (if int (length y) < py_int (0.5 * real_of_int sr) then Inr None
      else case snr_time_domain y sr of
             Some v \<Rightarrow> Inr (Some v)
           | None \<Rightarrow> snr_spectral y)"

section \<open>Loudness\<close>

text \<open>
  The loudness meter is the external library object \<^verbatim>\<open>pyln.Meter(sr)\<close>.  Its constructor
  and the four methods that \<^verbatim>\<open>metrics.py\<close> calls are parameters of the model; each call
  either raises or returns.  A series is \<^verbatim>\<open>None\<close> or an array of floats.
\<close>

record meter =
  integrated_loudness :: "real list \<Rightarrow> py_error + pyfloat"
  loudness_shortterm :: "real list \<Rightarrow> py_error + pyfloat list option"
  loudness_momentary :: "real list \<Rightarrow> py_error + pyfloat list option"
  loudness_range :: "real list \<Rightarrow> py_error + pyfloat"

type_synonym meter_ctor = "int \<Rightarrow> py_error + meter"

text \<open>
  \<^verbatim>\<open>
  def _p95(series):
      if series is None:
          return None
      series = np.asarray(series, dtype=float)
      series = series[np.isfinite(series)]
      if series.size == 0:
          return None
      return float(np.nanpercentile(series, 95))
  \<close>
\<close>

fun finite_part :: "pyfloat list \<Rightarrow> real list" where
  "finite_part [] = []"
| "finite_part (Fin v # xs) = v # finite_part xs"
| "finite_part (_ # xs) = finite_part xs"

definition p95 :: "pyfloat list option \<Rightarrow> pyfloat option" where
  "p95 series =
     (case series of
        None \<Rightarrow> None
      | Some xs \<Rightarrow>
          if finite_part xs = [] then None
          else Some (Fin (np_percentile (finite_part xs) 95)))"

text \<open>
  \<^verbatim>\<open>
  def r128_loudness_and_lra(y, sr):
      y = np.asarray(y, np.float64)
      meter = pyln.Meter(sr)  # BS.1770 + R128 gating
      L_i = meter.integrated_loudness(y)
      try:
          L_s = _p95(meter.loudness_shortterm(y))
      except Exception:
          L_s = None
      try:
          L_m = _p95(meter.loudness_momentary(y))
      except Exception:
          L_m = None
      try:
          LRA = float(meter.loudness_range(y))
          if not np.isfinite(LRA):
              LRA = None
      except Exception:
          LRA = None
      return L_i, L_s, L_m, LRA
  \<close>
\<close>

definition r128_loudness_and_lra ::
  "meter_ctor \<Rightarrow> real list \<Rightarrow> int
     \<Rightarrow> py_error + (pyfloat \<times> pyfloat option \<times> pyfloat option \<times> pyfloat option)" where
  "r128_loudness_and_lra Meter y sr =
     (case Meter sr of
        Inl e \<Rightarrow> Inl e
      | Inr m \<Rightarrow>
          (case integrated_loudness m y of
             Inl e \<Rightarrow> Inl e
           | Inr L_i \<Rightarrow>
               let L_s = (case loudness_shortterm m y of Inl _ \<Rightarrow> None | Inr s \<Rightarrow> p95 s);
                   L_m = (case loudness_momentary m y of Inl _ \<Rightarrow> None | Inr s \<Rightarrow> p95 s);
                   LRA = (case loudness_range m y of
                            Inl _ \<Rightarrow> None
                          | Inr v \<Rightarrow> if isfinite v then Some v else None)
               in Inr (L_i, L_s, L_m, LRA)))"

section \<open>Per-channel metrics\<close>

text \<open>
  A multi-channel buffer is a NumPy array of shape \<open>(N, C)\<close>: \<open>N\<close> frames of \<open>C\<close> samples.
  The channel count is kept beside the frames, as the shape of an array without frames
  still has it.  \<^verbatim>\<open>y_multi[:, c]\<close> is the column \<open>c\<close>.
\<close>

record mc_buffer =
  nchan :: nat
  mc_frames :: "real list list"

definition column :: "mc_buffer \<Rightarrow> nat \<Rightarrow> real list" where
  "column ym c = map (\<lambda>f. f ! c) (mc_frames ym)"

record channel_row =
  ch :: nat
  ch_peak_dbfs :: pyfloat
  ch_rms_dbfs :: pyfloat
  ch_crest_db :: pyfloat
  ch_lufs :: "pyfloat option"
  ch_lufs_s :: "pyfloat option"
  ch_lufs_m :: "pyfloat option"
  ch_lra :: "pyfloat option"

text \<open>
  The dictionary \<^verbatim>\<open>extra\<close>.  Its keys \<^verbatim>\<open>lr_corr\<close> and \<^verbatim>\<open>channel_imbalance_db\<close> are read
  with \<^verbatim>\<open>.get\<close> and compared with \<^verbatim>\<open>None\<close> only, so a missing key and the value
  \<^verbatim>\<open>None\<close> are both \<open>None\<close> here.
\<close>

record channel_extra =
  lr_corr :: "real option"
  channel_imbalance_db :: "pyfloat option"
  silent_channels :: "nat list"

text \<open>
  \<^verbatim>\<open>np.std\<close> (population standard deviation) and the off-diagonal entry of
  \<^verbatim>\<open>np.corrcoef\<close> (Pearson correlation, clipped to \<open>[-1, 1]\<close>) of non-empty arrays.
\<close>

definition np_std :: "real list \<Rightarrow> real" where
  "np_std xs = sqrt (np_mean (map (\<lambda>v. (v - np_mean xs) ^ 2) xs))"

definition np_corrcoef :: "real list \<Rightarrow> real list \<Rightarrow> real" where
  "np_corrcoef xs ys =
     (let cxy = sum_list (map (\<lambda>(a, b). (a - np_mean xs) * (b - np_mean ys)) (zip xs ys));
          cxx = sum_list (map (\<lambda>a. (a - np_mean xs) ^ 2) xs);
          cyy = sum_list (map (\<lambda>b. (b - np_mean ys) ^ 2) ys)
      in max (- 1) (min 1 (cxy / sqrt (cxx * cyy))))"

text \<open>
  \<^verbatim>\<open>
  for c in range(C):
      yc = y_multi[:, c]
      pk = peak_dbfs(yc)
      rms = rms_dbfs(yc)
      cr = crest_db(pk, rms)
      try:
          Li, Ls, Lm, LRA = r128_loudness_and_lra(yc, sr)
      except Exception:
          Li = Ls = Lm = LRA = None
      rows.append({"ch": c, "peak_dbfs": pk, "rms_dbfs": rms, "crest_db": cr,
                   "lufs": Li, "lufs_s": Ls, "lufs_m": Lm, "lra": LRA})
  \<close>
\<close>

definition channel_metrics :: "meter_ctor \<Rightarrow> mc_buffer \<Rightarrow> int \<Rightarrow> nat \<Rightarrow> py_error + channel_row" where
  "channel_metrics Meter ym sr c =
     (let yc = column ym c in
      case peak_dbfs yc of
        Inl e \<Rightarrow> Inl e
      | Inr pk \<Rightarrow>
          let rms = rms_dbfs yc;
              cr = crest_db pk rms;
              (Li, Ls, Lm, LRA) =
                (case r128_loudness_and_lra Meter yc sr of
                   Inl _ \<Rightarrow> (None, None, None, None)
                 | Inr (Li, Ls, Lm, LRA) \<Rightarrow> (Some Li, Ls, Lm, LRA))
          in Inr \<lparr>ch = c, ch_peak_dbfs = pk, ch_rms_dbfs = rms, ch_crest_db = cr,
                  ch_lufs = Li, ch_lufs_s = Ls, ch_lufs_m = Lm, ch_lra = LRA\<rparr>)"

fun channel_rows :: "meter_ctor \<Rightarrow> mc_buffer \<Rightarrow> int \<Rightarrow> nat list \<Rightarrow> py_error + channel_row list" where
  "channel_rows Meter ym sr [] = Inr []"
| "channel_rows Meter ym sr (c # cs) =
     (case channel_metrics Meter ym sr c of
        Inl e \<Rightarrow> Inl e
      | Inr r \<Rightarrow>
          (case channel_rows Meter ym sr cs of
             Inl e \<Rightarrow> Inl e
           | Inr rs \<Rightarrow> Inr (r # rs)))"

text \<open>
  \<^verbatim>\<open>
  silent_idx = []
  for i, r in enumerate(rows):
      if (r["rms_dbfs"] is not None and r["rms_dbfs"] < -80.0) or (
          r["peak_dbfs"] is not None and r["peak_dbfs"] < -60.0
      ):
          silent_idx.append(i)
  \<close>
  Both fields are floats, never \<^verbatim>\<open>None\<close>.
\<close>

definition is_silent_row :: "channel_row \<Rightarrow> bool" where
  "is_silent_row r = (pf_less (ch_rms_dbfs r) (- 80) \<or> pf_less (ch_peak_dbfs r) (- 60))"

definition silent_idx :: "channel_row list \<Rightarrow> nat list" where
  "silent_idx rows = map fst (filter (\<lambda>(i, r). is_silent_row r) (enumerate 0 rows))"

text \<open>
  \<^verbatim>\<open>
  if C >= 2:
      L, R = y_multi[:, 0], y_multi[:, 1]
      if np.std(L) > 1e-12 and np.std(R) > 1e-12:
          corr = float(np.corrcoef(L, R)[0, 1])
      else:
          corr = None
      Lrms, Rrms = rms_dbfs(L), rms_dbfs(R)
      imb = None
      if math.isfinite(Lrms) and math.isfinite(Rrms):
          imb = abs(Lrms - Rrms)
      extra.update({"lr_corr": corr, "channel_imbalance_db": imb})
  \<close>
  This part runs after the loop over the channels, which has raised already when the
  buffer has no frames; so the statistics see non-empty columns.
\<close>

definition stereo_corr :: "mc_buffer \<Rightarrow> real option" where
  "stereo_corr ym =
     (let L = column ym 0; R = column ym 1 in
      if eps < np_std L \<and> eps < np_std R then Some (np_corrcoef L R) else None)"

definition stereo_imbalance :: "mc_buffer \<Rightarrow> pyfloat option" where
  "stereo_imbalance ym =
     (let Lrms = rms_dbfs (column ym 0); Rrms = rms_dbfs (column ym 1) in
      if isfinite Lrms \<and> isfinite Rrms then Some (pf_abs (pf_sub Lrms Rrms)) else None)"

definition per_channel_metrics ::
  "meter_ctor \<Rightarrow> mc_buffer \<Rightarrow> int \<Rightarrow> py_error + (channel_row list \<times> channel_extra)" where
  "per_channel_metrics Meter y_multi sr =
     (case channel_rows Meter y_multi sr [0..<nchan y_multi] of
        Inl e \<Rightarrow> Inl e
      | Inr rows \<Rightarrow>
          Inr (rows,
               \<lparr>lr_corr = (if 2 \<le> nchan y_multi then stereo_corr y_multi else None),
                channel_imbalance_db = (if 2 \<le> nchan y_multi then stereo_imbalance y_multi else None),
                silent_channels = silent_idx rows\<rparr>))"

section \<open>Analysis of a file\<close>

text \<open>
  The decoders of \<^verbatim>\<open>audio_io.py\<close> and the meter constructor are the environment of
  \<^verbatim>\<open>analyze_file\<close>.
\<close>

record env =
  read_audio :: "string \<Rightarrow> py_error + (real list \<times> int)"
  read_audio_multi :: "string \<Rightarrow> py_error + (mc_buffer \<times> int)"
  pyln_Meter :: meter_ctor

record metrics_row =
  r_file :: string
  r_sr :: int
  r_peak_dbfs :: pyfloat
  r_true_peak_dbfs :: "real option"
  r_rms_dbfs :: pyfloat
  r_crest_db :: pyfloat
  r_lufs :: pyfloat
  r_lufs_s :: "pyfloat option"
  r_lufs_m :: "pyfloat option"
  r_lra :: "pyfloat option"
  r_snr_db :: "real option"
  r_channels :: "channel_row list option"
  r_lr_corr :: "real option"
  r_channel_imbalance_db :: "pyfloat option"
  r_silent_channels :: "nat list"

text \<open>\<^verbatim>\<open>os.path.basename\<close> on a POSIX path: what follows the last slash.\<close>

definition basename :: "string \<Rightarrow> string" where
  "basename p = rev (takeWhile (\<lambda>c. c \<noteq> CHR ''/'') (rev p))"

text \<open>
  \<^verbatim>\<open>
  try:
      ymc, _ = read_audio_multi(path)
      if getattr(ymc, "ndim", 1) == 2 and ymc.shape[1] >= 2:
          ch_rows, ch_extra = per_channel_metrics(ymc, sr)
  except Exception:
      pass
  \<close>
  The result is \<open>None\<close> when nothing was assigned.
\<close>

definition multi_channel_part ::
  "env \<Rightarrow> string \<Rightarrow> int \<Rightarrow> (channel_row list \<times> channel_extra) option" where
  "multi_channel_part E path sr =
     (case read_audio_multi E path of
        Inl _ \<Rightarrow> None
      | Inr (ymc, _) \<Rightarrow>
          if 2 \<le> nchan ymc then
            (case per_channel_metrics (pyln_Meter E) ymc sr of
               Inl _ \<Rightarrow> None
             | Inr res \<Rightarrow> Some res)
          else None)"

text \<open>
  \<^verbatim>\<open>
  def analyze_file(path):
      y, sr = read_audio(path)
      pk = peak_dbfs(y)
      rms = rms_dbfs(y)
      crest = crest_db(pk, rms)
      L_i, L_s, L_m, LRA = r128_loudness_and_lra(y, sr)
      snr = snr_db(y, sr)
      try:
          tp = true_peak_dbfs(y, sr, os_factor=4)
      except Exception:
          tp = None
      ... multi-channel part ...
      row = {...}
      return row
  \<close>
  Only the true peak and the multi-channel part are inside a \<^verbatim>\<open>try\<close>.
\<close>

definition analyze_file :: "env \<Rightarrow> string \<Rightarrow> py_error + metrics_row" where
  "analyze_file E path =
     (case read_audio E path of
        Inl e \<Rightarrow> Inl e
      | Inr (y, sr) \<Rightarrow>
          (case peak_dbfs y of
             Inl e \<Rightarrow> Inl e
           | Inr pk \<Rightarrow>
               let rms = rms_dbfs y; crest = crest_db pk rms in
               (case r128_loudness_and_lra (pyln_Meter E) y sr of
                  Inl e \<Rightarrow> Inl e
                | Inr (L_i, L_s, L_m, LRA) \<Rightarrow>
                    (case snr_db y sr of
                       Inl e \<Rightarrow> Inl e
                     | Inr snr \<Rightarrow>
                         let tp = true_peak_dbfs y sr 4;
                             mc = multi_channel_part E path sr
                         in Inr \<lparr>r_file = basename path, r_sr = sr, r_peak_dbfs = pk,
                                 r_true_peak_dbfs = tp, r_rms_dbfs = rms, r_crest_db = crest,
                                 r_lufs = L_i, r_lufs_s = L_s, r_lufs_m = L_m, r_lra = LRA,
                                 r_snr_db = snr,
                                 r_channels = map_option fst mc,
                                 r_lr_corr = (case mc of None \<Rightarrow> None | Some (_, x) \<Rightarrow> lr_corr x),
                                 r_channel_imbalance_db =
                                   (case mc of None \<Rightarrow> None | Some (_, x) \<Rightarrow> channel_imbalance_db x),
                                 r_silent_channels =
                                   (case mc of None \<Rightarrow> [] | Some (_, x) \<Rightarrow> silent_channels x)\<rparr>))))"

section \<open>Inputs and operations of the stated properties\<close>

text \<open>Amplitude scaling of a buffer by the factor \<open>k\<close>.\<close>

definition gain :: "real \<Rightarrow> real list \<Rightarrow> real list" where
  "gain k y = map (\<lambda>v. k * v) y"

text \<open>
  The amount by which a level guarded with \<open>eps\<close> falls short of the full
  \<open>20 * log 10 k\<close> when a signal of linear level \<open>a\<close> is scaled by \<open>k\<close>.
\<close>

definition gain_shortfall :: "real \<Rightarrow> real \<Rightarrow> real" where
  "gain_shortfall k a = 20 * log 10 ((k * a + k * eps) / (k * a + eps))"

text \<open>
  Ten samples at 20 Hz, so that every 50 ms frame is one sample: five quiet frames of
  amplitude 0.1 and five loud frames of amplitude 1.
\<close>

definition two_level :: "real list" where
  "two_level = [1/10, 1/10, 1/10, 1/10, 1/10, 1, 1, 1, 1, 1]"

text \<open>
  Meters and environments used as concrete inputs.  \<open>failing_meter\<close> cannot compute any
  loudness, as for a clip shorter than one gating block.  \<open>partial_meter\<close> computes the
  integrated loudness only; the other three calls raise.  \<open>silence_meter\<close> reports minus
  infinity as integrated loudness, the value of a BS.1770 gate that no block of a
  digitally silent buffer passes.  \<open>mono_env\<close> decodes every path to the given mono
  buffer and has no multi-channel decoder.
\<close>

definition failing_meter :: meter where
  "failing_meter =
     \<lparr>integrated_loudness = (\<lambda>y. Inl ValueError),
      loudness_shortterm = (\<lambda>y. Inl ValueError),
      loudness_momentary = (\<lambda>y. Inl ValueError),
      loudness_range = (\<lambda>y. Inl ValueError)\<rparr>"

definition partial_meter :: meter where
  "partial_meter =
     \<lparr>integrated_loudness = (\<lambda>y. Inr (Fin (- 23))),
      loudness_shortterm = (\<lambda>y. Inl (LibraryError ''AttributeError'')),
      loudness_momentary = (\<lambda>y. Inl (LibraryError ''AttributeError'')),
      loudness_range = (\<lambda>y. Inl (LibraryError ''AttributeError''))\<rparr>"

definition silence_meter :: meter where
  "silence_meter =
     \<lparr>integrated_loudness = (\<lambda>y. Inr NegInf),
      loudness_shortterm = (\<lambda>y. Inl (LibraryError ''AttributeError'')),
      loudness_momentary = (\<lambda>y. Inl (LibraryError ''AttributeError'')),
      loudness_range = (\<lambda>y. Inl (LibraryError ''AttributeError''))\<rparr>"

definition mono_env :: "meter \<Rightarrow> real list \<Rightarrow> int \<Rightarrow> env" where
  "mono_env m y sr =
     \<lparr>read_audio = (\<lambda>path. Inr (y, sr)),
      read_audio_multi = (\<lambda>path. Inl (LibraryError ''RuntimeError'')),
      pyln_Meter = (\<lambda>rate. Inr m)\<rparr>"

text \<open>A stereo buffer of two frames whose second channel is digitally silent.\<close>

definition half_silent :: mc_buffer where
  "half_silent = \<lparr>nchan = 2, mc_frames = [1/2, 0] # [- 1/2, 0] # []\<rparr>"

text \<open>A stereo buffer without frames: an array of shape \<open>(0, 2)\<close>.\<close>

definition no_frames :: mc_buffer where
  "no_frames = \<lparr>nchan = 2, mc_frames = []\<rparr>"

text \<open>Ten equal samples at 20 Hz: ten frames of the same energy.\<close>

definition steady :: "real list" where
  "steady = [1, 1, 1, 1, 1, 1, 1, 1, 1, 1]"

text \<open>
  A buffer of 4096 samples whose Hann-windowed form is a comb of four impulses, the first
  twice as high as the other three: a unit impulse at index 1 and three faint impulses at
  the indices 1025, 2049 and 3073, each the quotient of half the window weight at 1 and
  the window weight at its own index.  \<open>comb_unit\<close> is the power of a spectral bin of the
  windowed comb in which the three faint impulses cancel.
\<close>

definition comb_tone :: "real list" where
  "comb_tone =
     map (\<lambda>j. if j mod 1024 = 1
              then (if j = 1 then 1 else np_hanning 4096 ! 1 / (2 * np_hanning 4096 ! j))
              else 0) [0..<4096]"

definition comb_unit :: real where
  "comb_unit = (np_hanning 4096 ! 1 / 2) ^ 2 / (sum_list (map (\<lambda>v. v ^ 2) (np_hanning 4096)) + eps)"

text \<open>The height of the three lower impulses of the windowed comb, and the comb itself.\<close>

definition comb_c :: real where
  "comb_c = np_hanning 4096 ! 1 / 2"

definition comb_w :: "nat \<Rightarrow> real" where
  "comb_w j = (if j mod 1024 = 1 then (if j = 1 then 2 * comb_c else comb_c) else 0)"

text \<open>The power spectrum of \<open>comb_tone\<close>, bin by bin.\<close>

definition comb_psd :: "nat \<Rightarrow> real" where
  "comb_psd k = (if k = 0 then 0 else if 4 dvd k then 25 * comb_unit else comb_unit)"

section \<open>Properties of the level metrics and the true peak\<close>

lemma eps_pos: "0 < eps" by (simp add: eps_def)

lemma abs_le_peak_lin: "v \<in> set y \<Longrightarrow> \<bar>v\<bar> \<le> peak_lin y"
  by (simp add: peak_lin_def np_max_def)

lemma peak_lin_nonneg: "y \<noteq> [] \<Longrightarrow> 0 \<le> peak_lin y"
proof -
  assume "y \<noteq> []"
  then obtain v where v: "v \<in> set y" by (cases y) auto
  have "0 \<le> \<bar>v\<bar>" by simp
  also have "\<dots> \<le> peak_lin y" using v by (rule abs_le_peak_lin)
  finally show ?thesis .
qed

lemma peak_lin_attained: "y \<noteq> [] \<Longrightarrow> \<exists>v \<in> set y. peak_lin y = \<bar>v\<bar>"
proof -
  assume ne: "y \<noteq> []"
  have "Max (set (map abs y)) \<in> set (map abs y)"
    using ne by (intro Max_in) auto
  then show ?thesis by (auto simp: peak_lin_def np_max_def)
qed

lemma peak_lin_pos_iff: "y \<noteq> [] \<Longrightarrow> 0 < peak_lin y \<longleftrightarrow> (\<exists>v \<in> set y. v \<noteq> 0)"
proof
  assume ne: "y \<noteq> []" and pos: "0 < peak_lin y"
  from peak_lin_attained [OF ne] obtain v where "v \<in> set y" "peak_lin y = \<bar>v\<bar>" by blast
  with pos show "\<exists>v \<in> set y. v \<noteq> 0" by auto
next
  assume ne: "y \<noteq> []" and ex: "\<exists>v \<in> set y. v \<noteq> 0"
  then obtain v where v: "v \<in> set y" "v \<noteq> 0" by blast
  have "0 < \<bar>v\<bar>" using v by simp
  also have "\<dots> \<le> peak_lin y" using v(1) by (rule abs_le_peak_lin)
  finally show "0 < peak_lin y" .
qed

lemma abs_lerp_le:
  fixes a b m g :: real
  assumes "\<bar>a\<bar> \<le> m" "\<bar>b\<bar> \<le> m" "0 \<le> g" "g \<le> 1"
  shows "\<bar>a + g * (b - a)\<bar> \<le> m"
proof -
  have eq: "a + g * (b - a) = (1 - g) * a + g * b" by (simp add: algebra_simps)
  have "\<bar>(1 - g) * a + g * b\<bar> \<le> \<bar>(1 - g) * a\<bar> + \<bar>g * b\<bar>" by (rule abs_triangle_ineq)
  also have "\<dots> = (1 - g) * \<bar>a\<bar> + g * \<bar>b\<bar>" using assms by (simp add: abs_mult)
  also have "\<dots> \<le> (1 - g) * m + g * m"
    using assms by (intro add_mono mult_left_mono) auto
  also have "\<dots> = m" by (simp add: algebra_simps)
  finally show ?thesis using eq by simp
qed

lemma abs_np_interp_le: 
  assumes ne: "y \<noteq> []"
  shows "\<bar>np_interp t y\<bar> \<le> peak_lin y"
proof -
  let ?n = "length y"
  have n: "0 < ?n" using ne by simp
  show ?thesis
  proof (cases "t \<le> 0")
    case True
    then show ?thesis using n by (simp add: np_interp_def abs_le_peak_lin)
  next
    case pos: False
    show ?thesis
    proof (cases "real (?n - 1) \<le> t")
      case True
      then have "np_interp t y = y ! (?n - 1)"
        using pos unfolding np_interp_def Let_def by simp
      then show ?thesis using n by (simp add: abs_le_peak_lin)
    next
      case False
      let ?i = "nat \<lfloor>t\<rfloor>"
      have t0: "0 \<le> t" using pos by simp
      have i_le: "real ?i \<le> t" using t0 by simp
      have t_lt: "t < real ?i + 1" using t0 by linarith
      have "real ?i < real (?n - 1)" using i_le False by linarith
      then have i1: "?i + 1 < ?n" by linarith
      have a: "\<bar>y ! ?i\<bar> \<le> peak_lin y" using i1 by (intro abs_le_peak_lin) simp
      have b: "\<bar>y ! (?i + 1)\<bar> \<le> peak_lin y" using i1 by (intro abs_le_peak_lin) simp
      have "\<bar>y ! ?i + (t - real ?i) * (y ! (?i + 1) - y ! ?i)\<bar> \<le> peak_lin y"
      proof (rule abs_lerp_le [OF a b])
        show "0 \<le> t - real ?i" using i_le by linarith
        show "t - real ?i \<le> 1" using t_lt by linarith
      qed
      moreover have "np_interp t y = y ! ?i + (t - real ?i) * (y ! (?i + 1) - y ! ?i)"
        using pos False unfolding np_interp_def Let_def by simp
      ultimately show ?thesis by simp
    qed
  qed
qed

lemma true_peak_lin_eq: 
  assumes ne: "y \<noteq> []"
  shows "true_peak_lin y k = peak_lin y"
proof (cases "1 < k \<and> 1 < length y")
  case False
  then show ?thesis by (auto simp: true_peak_lin_def peak_lin_def)
next
  case True
  let ?u = "map abs (x_up y k)"
  have len: "length (x_up y k) = length y * k"
    by (simp add: x_up_def np_linspace_def)
  have ne_u: "set ?u \<noteq> {}" using True len by (cases "x_up y k") auto
  have "\<forall>v \<in> set ?u. v \<le> peak_lin y"
    using ne by (auto simp: x_up_def abs_np_interp_le)
  then have "Max (set ?u) \<le> peak_lin y" using ne_u by (intro Max.boundedI) auto
  then show ?thesis using True by (simp add: true_peak_lin_def peak_lin_def np_max_def)
qed

lemma true_peak_lin_ge: "peak_lin y \<le> true_peak_lin y k"
  by (simp add: true_peak_lin_def peak_lin_def Let_def)

lemma peak_lin_gain: 
  assumes "0 \<le> k" "y \<noteq> []"
  shows "peak_lin (gain k y) = k * peak_lin y"
proof -
  have m: "mono (\<lambda>v. k * v)" using assms(1) by (simp add: mono_def mult_left_mono)
  have "set (map abs (gain k y)) = (\<lambda>v. k * v) ` set (map abs y)"
    using assms(1) by (auto simp: gain_def abs_mult image_iff)
  moreover have "Max ((\<lambda>v. k * v) ` set (map abs y)) = k * Max (set (map abs y))"
    using assms(2) by (intro mono_Max_commute [OF m, symmetric]) auto
  ultimately show ?thesis by (simp add: peak_lin_def np_max_def)
qed

lemma sum_list_sq_gain: "sum_list (map (\<lambda>v. v ^ 2) (gain k y)) = k ^ 2 * sum_list (map (\<lambda>v. v ^ 2) y)"
  by (induction y) (simp_all add: gain_def power_mult_distrib algebra_simps)

lemma rms_lin_gain: 
  assumes "0 \<le> k"
  shows "rms_lin (gain k y) = k * rms_lin y"
proof -
  have "np_mean (map (\<lambda>v. v ^ 2) (gain k y)) = k ^ 2 * np_mean (map (\<lambda>v. v ^ 2) y)"
    using sum_list_sq_gain [of k y] by (simp add: np_mean_def gain_def)
  then show ?thesis using assms by (simp add: rms_lin_def real_sqrt_mult)
qed

lemma sum_list_sq_nonneg: "0 \<le> sum_list (map (\<lambda>v::real. v ^ 2) y)"
  by (induction y) simp_all

lemma sum_list_sq_pos: "\<exists>v \<in> set y. v \<noteq> 0 \<Longrightarrow> 0 < sum_list (map (\<lambda>v::real. v ^ 2) y)"
proof (induction y)
  case Nil
  then show ?case by simp
next
  case (Cons a y)
  show ?case
  proof (cases "a = 0")
    case True
    then show ?thesis using Cons by simp
  next
    case False
    then have "0 < a ^ 2" by simp
    moreover have "0 \<le> sum_list (map (\<lambda>v. v ^ 2) y)" by (rule sum_list_sq_nonneg)
    ultimately have "0 < a ^ 2 + sum_list (map (\<lambda>v. v ^ 2) y)" by linarith
    then show ?thesis by simp
  qed
qed

lemma rms_lin_pos: 
  assumes "\<exists>v \<in> set y. v \<noteq> 0"
  shows "0 < rms_lin y"
proof -
  have "y \<noteq> []" using assms by auto
  then have "0 < real (length y)" by simp
  then show ?thesis using sum_list_sq_pos [OF assms] by (simp add: rms_lin_def np_mean_def)
qed

lemma sum_list_sq_le: "(\<forall>v \<in> set y. \<bar>v\<bar> \<le> p) \<Longrightarrow> sum_list (map (\<lambda>v::real. v ^ 2) y) \<le> real (length y) * p ^ 2"
proof (induction y)
  case Nil
  then show ?case by simp
next
  case (Cons a y)
  then have "\<bar>a\<bar> \<le> p" by simp
  then have "a ^ 2 \<le> p ^ 2" by (metis abs_ge_zero power2_abs power_mono)
  then show ?case using Cons by (simp add: algebra_simps)
qed

lemma rms_le_peak: 
  assumes ne: "y \<noteq> []"
  shows "rms_lin y \<le> peak_lin y"
proof -
  have "sum_list (map (\<lambda>v. v ^ 2) y) \<le> real (length y) * peak_lin y ^ 2"
    by (intro sum_list_sq_le) (simp add: abs_le_peak_lin)
  then have "np_mean (map (\<lambda>v. v ^ 2) y) \<le> peak_lin y ^ 2"
    using ne by (simp add: np_mean_def field_simps)
  then have "rms_lin y \<le> sqrt (peak_lin y ^ 2)"
    unfolding rms_lin_def by (rule real_sqrt_le_mono)
  then show ?thesis using peak_lin_nonneg [OF ne] by simp
qed

text \<open>The shortfall of a guarded level under gain.\<close>

lemma guarded_gain:
  fixes a k :: real
  assumes k: "1 < k" and a: "0 < a"
  defines "d \<equiv> 20 * log 10 ((k * a + k * eps) / (k * a + eps))"
  shows "20 * log 10 (k * a + eps) = 20 * log 10 (a + eps) + 20 * log 10 k - d"
    and "0 < d" and "d < 20 * log 10 (1 + eps / a)"
proof -
  have e: "0 < eps" by (rule eps_pos)
  have ka: "0 < k * a" using k a by simp
  have pos1: "0 < k * a + eps" using ka e by linarith
  have pos2: "0 < k * a + k * eps" using ka k e by (simp add: add_pos_pos)
  have "log 10 ((k * a + k * eps) / (k * a + eps)) = log 10 (k * a + k * eps) - log 10 (k * a + eps)"
    using pos1 pos2 by (simp add: log_divide)
  moreover have "log 10 (k * a + k * eps) = log 10 k + log 10 (a + eps)"
  proof -
    have "k * a + k * eps = k * (a + eps)" by (simp add: algebra_simps)
    then show ?thesis using k a e by (simp add: log_mult)
  qed
  ultimately show "20 * log 10 (k * a + eps) = 20 * log 10 (a + eps) + 20 * log 10 k - d"
    by (simp add: d_def)
  have "k * a + eps < k * a + k * eps" using k e by simp
  then have "1 < (k * a + k * eps) / (k * a + eps)" using pos1 by simp
  then have "0 < log 10 ((k * a + k * eps) / (k * a + eps))" by simp
  then show "0 < d" by (simp add: d_def)
  have "(k * a + k * eps) * a < (a + eps) * (k * a + eps)"
  proof -
    have "(a + eps) * (k * a + eps) - (k * a + k * eps) * a = eps * (a + eps)"
      by (simp add: algebra_simps)
    moreover have "0 < eps * (a + eps)" using a e by simp
    ultimately show ?thesis by linarith
  qed
  then have "(k * a + k * eps) / (k * a + eps) < (a + eps) / a"
    using pos1 a by (simp add: field_simps)
  also have "(a + eps) / a = 1 + eps / a" using a by (simp add: field_simps)
  finally have lt: "(k * a + k * eps) / (k * a + eps) < 1 + eps / a" .
  have "0 < (k * a + k * eps) / (k * a + eps)" using pos1 pos2 by simp
  then have "log 10 ((k * a + k * eps) / (k * a + eps)) < log 10 (1 + eps / a)"
    using lt by simp
  then show "d < 20 * log 10 (1 + eps / a)" by (simp add: d_def)
qed

lemma level_floor_all_zero:
  assumes ne: "y \<noteq> []" and z: "\<forall>v \<in> set y. v = 0"
  shows "true_peak_dbfs y sr k = None \<and> peak_dbfs y = Inr (Fin (20 * log 10 eps))
         \<and> rms_dbfs y = Fin (20 * log 10 eps)"
proof -
  have p: "peak_lin y = 0"
    using peak_lin_pos_iff [OF ne] peak_lin_nonneg [OF ne] z by force
  have "sum_list (map (\<lambda>v. v ^ 2) y) = 0" using z by (induction y) auto
  then have r: "rms_lin y = 0" by (simp add: rms_lin_def np_mean_def)
  have "true_peak_lin y k = 0" using true_peak_lin_eq [OF ne] p by simp
  then show ?thesis using ne p r by (simp add: true_peak_dbfs_def peak_dbfs_def rms_dbfs_def)
qed

text \<open>
  Claim C8, evaluated on the zero-length buffer: \<open>true_peak_dbfs\<close> returns NA, but
  \<open>peak_dbfs\<close> raises \<^verbatim>\<open>ValueError\<close> and \<open>rms_dbfs\<close> returns NaN, where the claim
  promises the finite floor \<open>20 * log 10 eps\<close>.  (On a non-empty all-zero buffer the
  floor is returned, see \<open>level_floor_all_zero\<close>.)
\<close>

theorem level_metrics_empty_buffer:
  "true_peak_dbfs [] 48000 4 = None \<and> peak_dbfs [] = Inl ValueError \<and> rms_dbfs [] = NaN"
  by (simp add: true_peak_dbfs_def peak_dbfs_def rms_dbfs_def)

text \<open>
  Claim C2, as the code has it: for every buffer with a nonzero sample the linear true
  peak is the maximum of the sample peak and the oversampled peak, which for a linear
  interpolation is the sample peak itself; \<open>true_peak_dbfs\<close> is its level
  \<open>20 * log 10 (peak_lin y)\<close> without the guard \<open>eps\<close>, and \<open>peak_dbfs\<close>, which adds
  \<open>eps\<close> before the logarithm, lies above it by the positive amount
  \<open>20 * log 10 (1 + eps / peak_lin y)\<close>.
\<close>

theorem true_peak_below_peak_dbfs:
  assumes nz: "\<exists>v \<in> set y. v \<noteq> 0"
  shows "true_peak_lin y k = peak_lin y
       \<and> true_peak_dbfs y sr k = Some (20 * log 10 (peak_lin y))
       \<and> peak_dbfs y = Inr (Fin (20 * log 10 (peak_lin y) + 20 * log 10 (1 + eps / peak_lin y)))
       \<and> 0 < 20 * log 10 (1 + eps / peak_lin y)"
proof -
  have ne: "y \<noteq> []" using nz by auto
  have p: "0 < peak_lin y" using peak_lin_pos_iff [OF ne] nz by simp
  have e: "0 < eps" by (rule eps_pos)
  have tl: "true_peak_lin y k = peak_lin y" by (rule true_peak_lin_eq [OF ne])
  have "peak_lin y + eps = peak_lin y * (1 + eps / peak_lin y)"
    using p by (simp add: field_simps)
  moreover have "0 < 1 + eps / peak_lin y" using p e by (simp add: add_pos_pos)
  ultimately have "log 10 (peak_lin y + eps) = log 10 (peak_lin y) + log 10 (1 + eps / peak_lin y)"
    using p by (simp add: log_mult)
  then have pk: "peak_dbfs y = Inr (Fin (20 * log 10 (peak_lin y) + 20 * log 10 (1 + eps / peak_lin y)))"
    using ne by (simp add: peak_dbfs_def)
  have "1 < 1 + eps / peak_lin y" using p e by simp
  then have gap: "0 < 20 * log 10 (1 + eps / peak_lin y)" by simp
  have tp: "true_peak_dbfs y sr k = Some (20 * log 10 (peak_lin y))"
    using ne p tl by (simp add: true_peak_dbfs_def)
  show ?thesis using tl tp pk gap by simp
qed

text \<open>
  Claim C2, witness: the two-sample buffer \<open>[1/2, 1]\<close> at 48 kHz with the default
  oversampling factor 4.
\<close>

theorem true_peak_below_peak_dbfs_witness:
  "(\<exists>v \<in> set [1/2, 1::real]. v \<noteq> 0)
   \<and> true_peak_dbfs [1/2, 1] 48000 4 = Some 0
   \<and> peak_dbfs [1/2, 1] = Inr (Fin (20 * log 10 (1 + eps)))"
proof -
  have nz: "\<exists>v \<in> set [1/2, 1::real]. v \<noteq> 0" by simp
  have p: "peak_lin [1/2, 1] = 1" by (simp add: peak_lin_def np_max_def)
  show ?thesis using nz true_peak_below_peak_dbfs [OF nz, of 4 48000] p by simp
qed

text \<open>
  Claim C2 as stated fails: on \<open>[1/2, 1]\<close> the true peak is 0 dBFS while
  \<open>peak_dbfs\<close> is \<open>20 * log 10 (1 + eps)\<close>, which is greater than 0.
\<close>

theorem true_peak_ge_peak_counterexample:
  "true_peak_dbfs [1/2, 1] 48000 4 = Some 0
   \<and> peak_dbfs [1/2, 1] = Inr (Fin (20 * log 10 (1 + eps)))
   \<and> \<not> (20 * log 10 (1 + eps) \<le> 0)"
proof -
  have "true_peak_dbfs [1/2, 1] 48000 4 = Some 0"
    by (simp add: true_peak_dbfs_def true_peak_lin_def x_up_def np_linspace_def np_interp_def
        np_max_def upt_conv_Cons Let_def)
  moreover have "peak_dbfs [1/2, 1] = Inr (Fin (20 * log 10 (1 + eps)))"
    by (simp add: peak_dbfs_def peak_lin_def np_max_def)
  moreover have "(1::real) < 1 + eps" using eps_pos by simp
  then have "0 < log 10 (1 + eps)" by simp
  ultimately show ?thesis by simp
qed

text \<open>
  Claim C7, as the code has it: for a buffer with a nonzero sample and a factor
  \<open>k > 1\<close>, \<open>peak_dbfs\<close> and \<open>rms_dbfs\<close> of the scaled buffer are those of the
  original plus \<open>20 * log 10 k\<close> minus a positive shortfall caused by the guard \<open>eps\<close>;
  the shortfall is below \<open>20 * log 10 (1 + eps / a)\<close> for the linear peak (resp. RMS)
  \<open>a\<close> of the original, and the crest factor moves by the difference of the two
  shortfalls, which is below \<open>20 * log 10 (1 + eps / rms_lin y)\<close> in absolute value.
\<close>

theorem level_gain_shift:
  assumes k: "1 < k" and nz: "\<exists>v \<in> set y. v \<noteq> 0"
  shows "peak_dbfs y = Inr (Fin (20 * log 10 (peak_lin y + eps)))
       \<and> peak_dbfs (gain k y) =
           Inr (Fin (20 * log 10 (peak_lin y + eps) + 20 * log 10 k - gain_shortfall k (peak_lin y)))
       \<and> rms_dbfs y = Fin (20 * log 10 (rms_lin y + eps))
       \<and> rms_dbfs (gain k y) =
           Fin (20 * log 10 (rms_lin y + eps) + 20 * log 10 k - gain_shortfall k (rms_lin y))
       \<and> crest_db (Fin (20 * log 10 (peak_lin y + eps) + 20 * log 10 k - gain_shortfall k (peak_lin y)))
                   (Fin (20 * log 10 (rms_lin y + eps) + 20 * log 10 k - gain_shortfall k (rms_lin y)))
           = Fin (20 * log 10 (peak_lin y + eps) - 20 * log 10 (rms_lin y + eps)
                  + (gain_shortfall k (rms_lin y) - gain_shortfall k (peak_lin y)))
       \<and> 0 < gain_shortfall k (peak_lin y)
       \<and> gain_shortfall k (peak_lin y) < 20 * log 10 (1 + eps / peak_lin y)
       \<and> 0 < gain_shortfall k (rms_lin y)
       \<and> gain_shortfall k (rms_lin y) < 20 * log 10 (1 + eps / rms_lin y)
       \<and> \<bar>gain_shortfall k (rms_lin y) - gain_shortfall k (peak_lin y)\<bar>
           < 20 * log 10 (1 + eps / rms_lin y)"
proof -
  have ne: "y \<noteq> []" using nz by auto
  have gne: "gain k y \<noteq> []" using ne by (simp add: gain_def)
  have k0: "0 \<le> k" using k by simp
  have p: "0 < peak_lin y" using peak_lin_pos_iff [OF ne] nz by simp
  have r: "0 < rms_lin y" by (rule rms_lin_pos [OF nz])
  have rp: "rms_lin y \<le> peak_lin y" by (rule rms_le_peak [OF ne])
  note gp = guarded_gain [OF k p, folded gain_shortfall_def]
  note gr = guarded_gain [OF k r, folded gain_shortfall_def]
  have c1: "peak_dbfs y = Inr (Fin (20 * log 10 (peak_lin y + eps)))"
    using ne by (simp add: peak_dbfs_def)
  have c2: "peak_dbfs (gain k y) =
           Inr (Fin (20 * log 10 (peak_lin y + eps) + 20 * log 10 k - gain_shortfall k (peak_lin y)))"
    using gne gp(1) by (simp add: peak_dbfs_def peak_lin_gain [OF k0 ne])
  have c3: "rms_dbfs y = Fin (20 * log 10 (rms_lin y + eps))"
    using ne by (simp add: rms_dbfs_def)
  have c4: "rms_dbfs (gain k y) =
           Fin (20 * log 10 (rms_lin y + eps) + 20 * log 10 k - gain_shortfall k (rms_lin y))"
    using gne gr(1) by (simp add: rms_dbfs_def rms_lin_gain [OF k0])
  have c5: "crest_db (Fin (20 * log 10 (peak_lin y + eps) + 20 * log 10 k - gain_shortfall k (peak_lin y)))
                   (Fin (20 * log 10 (rms_lin y + eps) + 20 * log 10 k - gain_shortfall k (rms_lin y)))
           = Fin (20 * log 10 (peak_lin y + eps) - 20 * log 10 (rms_lin y + eps)
                  + (gain_shortfall k (rms_lin y) - gain_shortfall k (peak_lin y)))"
    by (simp add: crest_db_def)
  have "eps / peak_lin y \<le> eps / rms_lin y"
    using rp r eps_pos by (simp add: frac_le)
  then have "1 + eps / peak_lin y \<le> 1 + eps / rms_lin y" by simp
  moreover have "0 < 1 + eps / peak_lin y" using p eps_pos by (simp add: add_pos_pos)
  ultimately have "log 10 (1 + eps / peak_lin y) \<le> log 10 (1 + eps / rms_lin y)" by simp
  then have c6: "\<bar>gain_shortfall k (rms_lin y) - gain_shortfall k (peak_lin y)\<bar>
           < 20 * log 10 (1 + eps / rms_lin y)"
    using gp(2,3) gr(2,3) by linarith
  show ?thesis using c1 c2 c3 c4 c5 c6 gp(2,3) gr(2,3) by blast
qed

text \<open>
  Claim C7, witness: the one-sample buffer \<open>[1/2]\<close> scaled by 2.
\<close>

theorem level_gain_shift_witness:
  "(1::real) < 2 \<and> (\<exists>v \<in> set [1/2::real]. v \<noteq> 0)
   \<and> peak_dbfs (gain 2 [1/2]) =
        Inr (Fin (20 * log 10 (peak_lin [1/2] + eps) + 20 * log 10 2 - gain_shortfall 2 (peak_lin [1/2])))
   \<and> 0 < gain_shortfall 2 (peak_lin [1/2])
   \<and> gain_shortfall 2 (peak_lin [1/2]) < 20 * log 10 (1 + eps / peak_lin [1/2])"
proof -
  have k: "(1::real) < 2" by simp
  have nz: "\<exists>v \<in> set [1/2::real]. v \<noteq> 0" by (rule bexI [of _ "1/2"]) simp_all
  have "peak_dbfs (gain 2 [1/2]) =
        Inr (Fin (20 * log 10 (peak_lin [1/2] + eps) + 20 * log 10 2 - gain_shortfall 2 (peak_lin [1/2])))
   \<and> 0 < gain_shortfall 2 (peak_lin [1/2])
   \<and> gain_shortfall 2 (peak_lin [1/2]) < 20 * log 10 (1 + eps / peak_lin [1/2])"
    using level_gain_shift [OF k nz] by blast
  then show ?thesis using k nz by blast
qed

lemma log10_2_lower: "3 / 10 < log 10 (2::real)"
proof -
  have "(10::real) powr (3 / 10) < 2"
  proof -
    have "((10::real) powr (3 / 10)) ^ 10 = 10 powr 3"
      by (simp add: powr_power)
    also have "\<dots> = 1000" by simp
    also have "\<dots> < (2::real) ^ 10" by simp
    finally have "((10::real) powr (3 / 10)) ^ 10 < 2 ^ 10" .
    then show ?thesis by (rule power_less_imp_less_base) simp
  qed
  moreover have "3 / 10 < log 10 (2::real) \<longleftrightarrow> 10 powr (3 / 10) < (2::real)"
    by (rule less_log_iff) simp_all
  ultimately show ?thesis by blast
qed

text \<open>
  Claim C7 as stated fails.  The all-zero buffer \<open>[0]\<close> scaled by 2 keeps its peak and
  RMS level at the floor, although \<open>20 * log 10 2\<close> is more than 6 dB; and the quiet
  buffer \<open>[eps]\<close> scaled by 2 gains \<open>20 * log 10 (3/2)\<close> instead of \<open>20 * log 10 2\<close>
  in peak level.
\<close>

theorem gain_shift_counterexample:
  "peak_dbfs [0] = Inr (Fin (20 * log 10 eps)) \<and> peak_dbfs (gain 2 [0]) = Inr (Fin (20 * log 10 eps))
   \<and> rms_dbfs [0] = Fin (20 * log 10 eps) \<and> rms_dbfs (gain 2 [0]) = Fin (20 * log 10 eps)
   \<and> 6 < 20 * log 10 (2::real)
   \<and> peak_dbfs [eps] = Inr (Fin (20 * log 10 (2 * eps)))
   \<and> peak_dbfs (gain 2 [eps]) = Inr (Fin (20 * log 10 (3 * eps)))
   \<and> 20 * log 10 (3 * eps) < 20 * log 10 (2 * eps) + 20 * log 10 2"
proof -
  have z: "peak_dbfs [0] = Inr (Fin (20 * log 10 eps)) \<and> peak_dbfs (gain 2 [0]) = Inr (Fin (20 * log 10 eps))
   \<and> rms_dbfs [0] = Fin (20 * log 10 eps) \<and> rms_dbfs (gain 2 [0]) = Fin (20 * log 10 eps)"
    by (simp add: peak_dbfs_def rms_dbfs_def gain_def peak_lin_def rms_lin_def np_max_def np_mean_def)
  have e: "0 < eps" by (rule eps_pos)
  have a: "peak_dbfs [eps] = Inr (Fin (20 * log 10 (2 * eps)))"
    using e by (simp add: peak_dbfs_def peak_lin_def np_max_def)
  have b: "peak_dbfs (gain 2 [eps]) = Inr (Fin (20 * log 10 (3 * eps)))"
    using e by (simp add: peak_dbfs_def peak_lin_def np_max_def gain_def)
  have "log 10 ((2 * eps) * 2) = log 10 (2 * eps) + log 10 2"
    using e by (subst log_mult) simp_all
  then have "log 10 (2 * eps) + log 10 2 = log 10 (4 * eps)" by simp
  moreover have "log 10 (3 * eps) < log 10 (4 * eps)" using e by simp
  ultimately have c: "20 * log 10 (3 * eps) < 20 * log 10 (2 * eps) + 20 * log 10 2" by simp
  show ?thesis using z a b c log10_2_lower by simp
qed

section \<open>Properties of the time-domain SNR path\<close>

text \<open>
  The frames are consecutive slices that together make up the buffer, and their energies
  are not negative.
\<close>

lemma frame_len_pos: "0 < frame_len sr"
  by (simp add: frame_len_def)

lemma concat_chunks: "concat (map (\<lambda>j. take L (drop (j * L) y)) [0..<c]) = take (c * L) y"
proof (induction c)
  case 0
  show ?case by simp
next
  case (Suc c)
  have "take (c * L + L) y = take (c * L) y @ take L (drop (c * L) y)" by (rule take_add)
  then show ?case using Suc by (simp add: add.commute)
qed

lemma ceil_div_covers:
  fixes n L :: nat
  assumes "0 < L"
  shows "n \<le> ((n + L - 1) div L) * L"
proof -
  let ?m = "n + L - 1"
  have "?m = (?m div L) * L + ?m mod L" by simp
  moreover have "?m mod L < L" using assms by simp
  ultimately have "?m < (?m div L) * L + L" by linarith
  then show ?thesis using assms by linarith
qed

lemma frame_partition:
  "concat (map (\<lambda>i. slice y i (i + frame_len sr)) (py_range (length y) (frame_len sr))) = y"
proof -
  let ?L = "frame_len sr"
  let ?c = "(length y + ?L - 1) div ?L"
  have "map (\<lambda>i. slice y i (i + ?L)) (py_range (length y) ?L)
        = map (\<lambda>j. take ?L (drop (j * ?L) y)) [0..<?c]"
    by (simp add: py_range_def slice_def o_def)
  then have "concat (map (\<lambda>i. slice y i (i + ?L)) (py_range (length y) ?L)) = take (?c * ?L) y"
    by (simp only: concat_chunks)
  moreover have "length y \<le> ?c * ?L" by (rule ceil_div_covers [OF frame_len_pos])
  ultimately show ?thesis by simp
qed

lemma frame_energy_nonneg: "e \<in> set (frame_energies y sr) \<Longrightarrow> 0 \<le> e"
  using sum_list_sq_nonneg by (auto simp: frame_energies_def np_mean_def)

lemma frame_len_20: "frame_len 20 = 1"
  by (simp add: frame_len_def py_int_def)

lemma frames_two_level:
  "frames two_level 20 = [1/100, 1/100, 1/100, 1/100, 1/100, 1, 1, 1, 1, 1]"
  by (simp add: frames_def frame_energies_def frame_len_20 py_range_def slice_def two_level_def
      np_mean_def upt_conv_Cons power2_eq_square)

lemma percentiles_two_level:
  "np_percentile [1/100, 1/100, 1/100, 1/100, 1/100, 1, 1, 1, 1, 1] 10 = 1/100"
  "np_percentile [1/100, 1/100, 1/100, 1/100, 1/100, 1, 1, 1, 1, 1] 20 = 1/100"
  "np_percentile [1/100, 1/100, 1/100, 1/100, 1/100, 1, 1, 1, 1, 1] 80 = 1"
  "np_percentile [1/100, 1/100, 1/100, 1/100, 1/100, 1, 1, 1, 1, 1] 90 = 1"
  by (simp_all add: np_percentile_def Let_def)

lemma noise_frames_two_level:
  "noise_frames (frames two_level 20) = [1/100, 1/100, 1/100, 1/100, 1/100]"
  by (simp add: noise_frames_def frames_two_level percentiles_two_level)

lemma signal_frames_two_level:
  "signal_frames (frames two_level 20) = [1, 1, 1, 1, 1]"
  by (simp add: signal_frames_def frames_two_level percentiles_two_level)

lemma dyn_db_two_level: "6 \<le> dyn_db (frames two_level 20)"
proof -
  have e: "0 < eps" by (rule eps_pos)
  have "eps < 1 / 100" by (simp add: eps_def)
  then have "10 * (1 / 100 + eps) \<le> 1 + eps" by simp
  then have "10 \<le> (1 + eps) / (1 / 100 + eps)" using e by (simp add: pos_le_divide_eq)
  then have "log 10 10 \<le> log 10 ((1 + eps) / (1 / 100 + eps))"
    by (subst log_le_cancel_iff) simp_all
  then show ?thesis by (simp add: dyn_db_def frames_two_level percentiles_two_level)
qed

text \<open>Monotonicity of the interpolated percentile.\<close>

lemma np_percentile_bounds:
  assumes ne: "a \<noteq> []" and q0: "0 \<le> q" and q1: "q \<le> 100"
  defines "s \<equiv> sort a"
  defines "v \<equiv> q / 100 * real (length a - 1)"
  shows "nat \<lfloor>v\<rfloor> < length a"
    and "s ! nat \<lfloor>v\<rfloor> \<le> np_percentile a q"
    and "np_percentile a q \<le> s ! min (nat \<lfloor>v\<rfloor> + 1) (length a - 1)"
proof -
  let ?n = "length a"
  let ?lo = "nat \<lfloor>v\<rfloor>"
  let ?hi = "min (?lo + 1) (?n - 1)"
  have n: "0 < ?n" using ne by simp
  have v0: "0 \<le> v" using q0 by (simp add: v_def)
  have "v \<le> 1 * real (?n - 1)"
    unfolding v_def using q0 q1 by (intro mult_right_mono) auto
  then have v1: "v \<le> real (?n - 1)" by simp
  have lo_le: "real ?lo \<le> v" using v0 by simp
  have "real ?lo \<le> real (?n - 1)" using lo_le v1 by linarith
  then have lo_n: "?lo \<le> ?n - 1" by simp
  then show lo_lt: "?lo < ?n" using n by linarith
  have hi_lt: "?hi < ?n" using n by arith
  have lo_hi: "?lo \<le> ?hi" using lo_n by arith
  have srt: "sorted s" by (simp add: s_def)
  have len: "length s = ?n" by (simp add: s_def)
  have mono: "s ! ?lo \<le> s ! ?hi"
    using srt lo_hi hi_lt len by (simp add: sorted_nth_mono)
  have g0: "0 \<le> v - real ?lo" using lo_le by simp
  have g1: "v - real ?lo \<le> 1" using v0 by linarith
  have pc: "np_percentile a q = s ! ?lo + (s ! ?hi - s ! ?lo) * (v - real ?lo)"
    by (simp add: np_percentile_def Let_def s_def v_def)
  have d: "0 \<le> s ! ?hi - s ! ?lo" using mono by simp
  have "0 \<le> (s ! ?hi - s ! ?lo) * (v - real ?lo)" using d g0 by simp
  then show "s ! ?lo \<le> np_percentile a q" using pc by simp
  have "(s ! ?hi - s ! ?lo) * (v - real ?lo) \<le> (s ! ?hi - s ! ?lo) * 1"
    using d g1 by (rule mult_left_mono [rotated])
  then show "np_percentile a q \<le> s ! ?hi" using pc by simp
qed

lemma np_percentile_mono:
  assumes ne: "a \<noteq> []" and q0: "0 \<le> q1" and q12: "q1 \<le> q2" and q2: "q2 \<le> 100"
  shows "np_percentile a q1 \<le> np_percentile a q2"
proof -
  let ?n = "length a"
  let ?s = "sort a"
  let ?v1 = "q1 / 100 * real (?n - 1)"
  let ?v2 = "q2 / 100 * real (?n - 1)"
  let ?l1 = "nat \<lfloor>?v1\<rfloor>"
  let ?l2 = "nat \<lfloor>?v2\<rfloor>"
  have q1': "q1 \<le> 100" and q2': "0 \<le> q2" using q0 q12 q2 by auto
  have v12: "?v1 \<le> ?v2" using q12 by (intro mult_right_mono divide_right_mono) auto
  have l12: "?l1 \<le> ?l2" using v12 by (intro nat_mono floor_mono)
  note b1 = np_percentile_bounds [OF ne q0 q1']
  note b2 = np_percentile_bounds [OF ne q2' q2]
  have srt: "sorted ?s" by simp
  show ?thesis
  proof (cases "?l1 = ?l2")
    case True
    let ?h = "min (?l1 + 1) (?n - 1)"
    have "?l1 \<le> ?h" using b1(1) by arith
    moreover have "?h < ?n" using b1(1) by arith
    then have "?h < length ?s" unfolding length_sort .
    ultimately have "?s ! ?l1 \<le> ?s ! ?h" using srt by (intro sorted_nth_mono)
    then have d: "0 \<le> ?s ! ?h - ?s ! ?l1" by simp
    have "?v1 - real ?l1 \<le> ?v2 - real ?l1" using v12 by simp
    then have "(?s ! ?h - ?s ! ?l1) * (?v1 - real ?l1) \<le> (?s ! ?h - ?s ! ?l1) * (?v2 - real ?l1)"
      using d by (rule mult_left_mono)
    then show ?thesis using True by (simp add: np_percentile_def Let_def)
  next
    case False
    then have lt: "?l1 + 1 \<le> ?l2" using l12 by simp
    have "?l2 \<le> ?n - 1" using b2(1) by arith
    then have h1: "min (?l1 + 1) (?n - 1) = ?l1 + 1" using lt by arith
    have ls: "length ?s = ?n" by simp
    have l2: "?l2 < length ?s" unfolding ls by (rule b2(1))
    have "np_percentile a q1 \<le> ?s ! (?l1 + 1)" using b1(3) unfolding h1 .
    also have "\<dots> \<le> ?s ! ?l2" using srt lt l2 by (rule sorted_nth_mono)
    also have "\<dots> \<le> np_percentile a q2" by (rule b2(2))
    finally show ?thesis .
  qed
qed

lemma np_mean_ge: "xs \<noteq> [] \<Longrightarrow> \<forall>x \<in> set xs. c \<le> x \<Longrightarrow> c \<le> np_mean xs"
proof -
  assume ne: "xs \<noteq> []" and ge: "\<forall>x \<in> set xs. c \<le> x"
  have "real (length xs) * c \<le> sum_list xs"
    using ge by (induction xs) (auto simp: algebra_simps)
  then show ?thesis using ne by (simp add: np_mean_def field_simps)
qed

lemma np_mean_le: "xs \<noteq> [] \<Longrightarrow> \<forall>x \<in> set xs. x \<le> c \<Longrightarrow> np_mean xs \<le> c"
proof -
  assume ne: "xs \<noteq> []" and le: "\<forall>x \<in> set xs. x \<le> c"
  have "sum_list xs \<le> real (length xs) * c"
    using le by (induction xs) (auto simp: algebra_simps)
  then show ?thesis using ne by (simp add: np_mean_def field_simps)
qed

lemma frames_pos: "e \<in> set (frames y sr) \<Longrightarrow> 0 < e"
  by (simp add: frames_def)

lemma snr_time_domain_SomeD:
  assumes "snr_time_domain y sr = Some v"
  shows "10 \<le> length (frames y sr) \<and> 6 \<le> dyn_db (frames y sr)
       \<and> 5 \<le> length (noise_frames (frames y sr)) \<and> 5 \<le> length (signal_frames (frames y sr))
       \<and> v = 10 * log 10 ((np_mean (signal_frames (frames y sr)) + eps)
                          / (np_mean (noise_frames (frames y sr)) + eps))"
  using assms by (simp add: snr_time_domain_def Let_def split: if_splits)

text \<open>
  Claim C10: a value returned by the time-domain percentile path is never negative,
  because the mean energy of the frames at or above the 80th percentile is at least the
  mean energy of the frames at or below the 20th percentile.
\<close>

theorem snr_time_domain_nonneg:
  assumes "snr_time_domain y sr = Some v"
  shows "np_mean (noise_frames (frames y sr)) \<le> np_mean (signal_frames (frames y sr)) \<and> 0 \<le> v"
proof -
  let ?fr = "frames y sr"
  let ?S = "signal_frames ?fr" and ?N = "noise_frames ?fr"
  from snr_time_domain_SomeD [OF assms]
  have len: "10 \<le> length ?fr" and nN: "5 \<le> length ?N" and nS: "5 \<le> length ?S"
    and v: "v = 10 * log 10 ((np_mean ?S + eps) / (np_mean ?N + eps))" by auto
  have fr_ne: "?fr \<noteq> []" using len by auto
  have S_ne: "?S \<noteq> []" and N_ne: "?N \<noteq> []" using nS nN by auto
  have p: "np_percentile ?fr 20 \<le> np_percentile ?fr 80"
    by (rule np_percentile_mono [OF fr_ne]) simp_all
  have "np_mean ?N \<le> np_percentile ?fr 20"
    by (rule np_mean_le [OF N_ne]) (simp add: noise_frames_def)
  moreover have "np_percentile ?fr 80 \<le> np_mean ?S"
    by (rule np_mean_ge [OF S_ne]) (simp add: signal_frames_def)
  ultimately have le: "np_mean ?N \<le> np_mean ?S" using p by linarith
  have "\<forall>e \<in> set ?N. 0 \<le> e" using frames_pos [of _ y sr] by (auto simp: noise_frames_def less_imp_le)
  then have "0 \<le> np_mean ?N" by (rule np_mean_ge [OF N_ne])
  then have pos: "0 < np_mean ?N + eps" using eps_pos by linarith
  have "np_mean ?N + eps \<le> np_mean ?S + eps" using le by simp
  then have "1 \<le> (np_mean ?S + eps) / (np_mean ?N + eps)" using pos by simp
  then have "0 \<le> log 10 ((np_mean ?S + eps) / (np_mean ?N + eps))" by simp
  then have "0 \<le> v" using v by simp
  then show ?thesis using le by simp
qed

lemma snr_time_domain_two_level:
  "snr_time_domain two_level 20 = Some (10 * log 10 ((1 + eps) / (1 / 100 + eps)))"
  using dyn_db_two_level
  by (simp add: snr_time_domain_def Let_def noise_frames_two_level signal_frames_two_level
      np_mean_def) (simp add: frames_two_level)

text \<open>
  Claim C10, witness: the buffer \<open>two_level\<close> at 20 Hz takes the time-domain path.
\<close>

theorem snr_time_domain_nonneg_witness:
  "snr_time_domain two_level 20 = Some (10 * log 10 ((1 + eps) / (1 / 100 + eps)))
   \<and> np_mean (noise_frames (frames two_level 20)) \<le> np_mean (signal_frames (frames two_level 20))
   \<and> 0 \<le> 10 * log 10 ((1 + eps) / (1 / 100 + eps))"
  using snr_time_domain_two_level snr_time_domain_nonneg [OF snr_time_domain_two_level]
  by blast

text \<open>
  Claim C6: a buffer with fewer than \<^verbatim>\<open>int(0.5 * sr)\<close> samples has SNR = NA.
\<close>

theorem snr_short_buffer_NA:
  assumes "int (length y) < py_int (0.5 * real_of_int sr)"
  shows "snr_db y sr = Inr None"
  using assms by (simp add: snr_db_def)

text \<open>
  Claim C6, witness: three samples at 48 kHz.
\<close>

theorem snr_short_buffer_NA_witness:
  "int (length [0, 0, 0::real]) < py_int (0.5 * real_of_int 48000)
   \<and> snr_db [0, 0, 0] 48000 = Inr None"
proof -
  have h: "int (length [0, 0, 0::real]) < py_int (0.5 * real_of_int 48000)"
    by (simp add: py_int_def)
  show ?thesis using h snr_short_buffer_NA [OF h] by simp
qed

text \<open>
  Claim C1, as the code has it: for a buffer of at least \<^verbatim>\<open>int(0.5 * sr)\<close> samples with
  at least 10 frames of nonzero energy, \<open>snr_db\<close> returns
  \<open>10 * log 10 ((mean signal + eps) / (mean noise + eps))\<close> when the guarded dynamic
  range \<open>10 * log 10 ((p90 + eps) / (p10 + eps))\<close> is at least 6 dB and each tail holds at
  least 5 frames; otherwise the time-domain path gives no value and the result is that
  of the spectral method.
\<close>

theorem snr_db_time_domain_path:
  assumes "py_int (0.5 * real_of_int sr) \<le> int (length y)" and "10 \<le> length (frames y sr)"
  shows "snr_db y sr =
     (if 6 \<le> dyn_db (frames y sr) \<and> 5 \<le> length (noise_frames (frames y sr))
           \<and> 5 \<le> length (signal_frames (frames y sr))
      then Inr (Some (10 * log 10 ((np_mean (signal_frames (frames y sr)) + eps)
                                   / (np_mean (noise_frames (frames y sr)) + eps))))
      else snr_spectral y)"
  using assms by (simp add: snr_db_def snr_time_domain_def Let_def)

lemma half_second_20: "py_int (0.5 * real_of_int 20) = 10"
  by (simp add: py_int_def)

text \<open>
  Claim C1, witness: the buffer \<open>two_level\<close> at 20 Hz meets every condition of the
  time-domain path.
\<close>

theorem snr_db_time_domain_path_witness:
  "py_int (0.5 * real_of_int 20) \<le> int (length two_level)
   \<and> 10 \<le> length (frames two_level 20)
   \<and> snr_db two_level 20 = Inr (Some (10 * log 10 ((1 + eps) / (1 / 100 + eps))))"
proof -
  have h1: "py_int (0.5 * real_of_int 20) \<le> int (length two_level)"
    by (simp add: py_int_def two_level_def)
  have h2: "10 \<le> length (frames two_level 20)" by (simp add: frames_two_level)
  have "snr_db two_level 20 = Inr (Some (10 * log 10 ((1 + eps) / (1 / 100 + eps))))"
    using snr_db_time_domain_path [OF h1 h2] dyn_db_two_level
    by (simp add: noise_frames_two_level signal_frames_two_level np_mean_def)
  then show ?thesis using h1 h2 by blast
qed

lemma log10_100: "log 10 (100::real) = 2"
proof -
  have "log 10 ((10::real) ^ 2) = 2" by (subst log_nat_power) simp_all
  then show ?thesis by simp
qed

text \<open>
  Claim C1 as stated fails: \<open>two_level\<close> at 20 Hz satisfies the stated conditions (also
  with the unguarded dynamic range), the stated formula gives
  \<open>10 * log 10 (1 / (1/100)) = 20\<close>, and the code returns
  \<open>10 * log 10 ((1 + eps) / (1/100 + eps))\<close>, which is less than 20.
\<close>

theorem snr_time_domain_formula_counterexample:
  "0.5 * 20 \<le> real (length two_level)
   \<and> length (frames two_level 20) = 10
   \<and> 6 \<le> 10 * log 10 (np_percentile (frames two_level 20) 90 / np_percentile (frames two_level 20) 10)
   \<and> length (noise_frames (frames two_level 20)) = 5
   \<and> length (signal_frames (frames two_level 20)) = 5
   \<and> 10 * log 10 (np_mean (signal_frames (frames two_level 20))
                    / np_mean (noise_frames (frames two_level 20))) = 20
   \<and> snr_db two_level 20 = Inr (Some (10 * log 10 ((1 + eps) / (1 / 100 + eps))))
   \<and> 10 * log 10 ((1 + eps) / (1 / 100 + eps)) < 20"
proof -
  have a: "0.5 * 20 \<le> real (length two_level)" by (simp add: two_level_def)
  have b: "length (frames two_level 20) = 10" by (simp add: frames_two_level)
  have c: "6 \<le> 10 * log 10 (np_percentile (frames two_level 20) 90 / np_percentile (frames two_level 20) 10)"
    by (simp add: frames_two_level percentiles_two_level log10_100)
  have d: "length (noise_frames (frames two_level 20)) = 5"
    by (simp add: noise_frames_two_level)
  have e: "length (signal_frames (frames two_level 20)) = 5"
    by (simp add: signal_frames_two_level)
  have f: "10 * log 10 (np_mean (signal_frames (frames two_level 20))
                    / np_mean (noise_frames (frames two_level 20))) = 20"
    by (simp add: noise_frames_two_level signal_frames_two_level np_mean_def log10_100)
  have "\<not> int (length two_level) < py_int (0.5 * real_of_int 20)"
    by (simp add: py_int_def two_level_def)
  then have g: "snr_db two_level 20 = Inr (Some (10 * log 10 ((1 + eps) / (1 / 100 + eps))))"
    using snr_time_domain_two_level by (simp add: snr_db_def)
  have "(1 + eps) / (1 / 100 + eps) < 100" using eps_pos by (simp add: field_simps)
  moreover have "0 < (1 + eps) / (1 / 100 + eps)" using eps_pos by (simp add: add_pos_pos)
  ultimately have "log 10 ((1 + eps) / (1 / 100 + eps)) < log 10 100" by simp
  then have h: "10 * log 10 ((1 + eps) / (1 / 100 + eps)) < 20" by (simp add: log10_100)
  show ?thesis using a b c d e f g h by blast
qed

section \<open>Properties of the loudness metrics and of the analysis\<close>

lemma snr_db_nonempty_returns: "y \<noteq> [] \<Longrightarrow> \<exists>r. snr_db y sr = Inr r"
  by (simp add: snr_db_def snr_spectral_def Let_def split: option.splits)

text \<open>
  Claim C4: for a non-empty buffer and a meter that could be constructed, an exception
  of the integrated-loudness computation leaves \<open>r128_loudness_and_lra\<close> (and
  \<open>analyze_file\<close>, when the buffer is the decoded mono buffer) as that exception, while
  an exception of the short-term, momentary or loudness-range computation is caught and
  the corresponding result is NA.
\<close>

theorem r128_failure_policy:
  assumes ne: "y \<noteq> []" and M: "Meter sr = Inr m"
  shows "(\<forall>e. integrated_loudness m y = Inl e \<longrightarrow>
            r128_loudness_and_lra Meter y sr = Inl e
            \<and> (\<forall>E path. read_audio E path = Inr (y, sr) \<and> pyln_Meter E = Meter
                  \<longrightarrow> analyze_file E path = Inl e))
       \<and> (\<forall>L_i. integrated_loudness m y = Inr L_i \<longrightarrow>
            (\<exists>L_s L_m LRA. r128_loudness_and_lra Meter y sr = Inr (L_i, L_s, L_m, LRA)
               \<and> ((\<exists>e. loudness_shortterm m y = Inl e) \<longrightarrow> L_s = None)
               \<and> ((\<exists>e. loudness_momentary m y = Inl e) \<longrightarrow> L_m = None)
               \<and> ((\<exists>e. loudness_range m y = Inl e) \<longrightarrow> LRA = None)))"
proof (intro conjI allI impI)
  fix e assume i: "integrated_loudness m y = Inl e"
  show r: "r128_loudness_and_lra Meter y sr = Inl e"
    using M i by (simp add: r128_loudness_and_lra_def)
  fix E :: env and path assume "read_audio E path = Inr (y, sr) \<and> pyln_Meter E = Meter"
  then show "analyze_file E path = Inl e"
    using ne r by (simp add: analyze_file_def peak_dbfs_def)
next
  fix L_i assume i: "integrated_loudness m y = Inr L_i"
  show "\<exists>L_s L_m LRA. r128_loudness_and_lra Meter y sr = Inr (L_i, L_s, L_m, LRA)
               \<and> ((\<exists>e. loudness_shortterm m y = Inl e) \<longrightarrow> L_s = None)
               \<and> ((\<exists>e. loudness_momentary m y = Inl e) \<longrightarrow> L_m = None)
               \<and> ((\<exists>e. loudness_range m y = Inl e) \<longrightarrow> LRA = None)"
    using M i by (auto simp: r128_loudness_and_lra_def Let_def)
qed

text \<open>
  Claim C4, witness: a meter whose integrated loudness raises \<^verbatim>\<open>ValueError\<close>, and a
  meter that computes the integrated loudness while its other three methods raise.
\<close>

theorem r128_failure_policy_witness:
  "[1/2, 1/2] \<noteq> ([]::real list)
   \<and> integrated_loudness failing_meter [1/2, 1/2] = Inl ValueError
   \<and> r128_loudness_and_lra (\<lambda>rate. Inr failing_meter) [1/2, 1/2] 48000 = Inl ValueError
   \<and> analyze_file (mono_env failing_meter [1/2, 1/2] 48000) ''a.wav'' = Inl ValueError
   \<and> integrated_loudness partial_meter [1/2, 1/2] = Inr (Fin (- 23))
   \<and> (\<exists>e. loudness_shortterm partial_meter [1/2, 1/2] = Inl e)
   \<and> (\<exists>e. loudness_momentary partial_meter [1/2, 1/2] = Inl e)
   \<and> (\<exists>e. loudness_range partial_meter [1/2, 1/2] = Inl e)
   \<and> r128_loudness_and_lra (\<lambda>rate. Inr partial_meter) [1/2, 1/2] 48000
       = Inr (Fin (- 23), None, None, None)"
proof -
  have ne: "[1/2, 1/2] \<noteq> ([]::real list)" by simp
  have f: "integrated_loudness failing_meter [1/2, 1/2] = Inl ValueError"
    by (simp add: failing_meter_def)
  have p: "integrated_loudness partial_meter [1/2, 1/2] = Inr (Fin (- 23))"
    by (simp add: partial_meter_def)
  have ps: "\<exists>e. loudness_shortterm partial_meter [1/2, 1/2] = Inl e"
    and pm: "\<exists>e. loudness_momentary partial_meter [1/2, 1/2] = Inl e"
    and pr: "\<exists>e. loudness_range partial_meter [1/2, 1/2] = Inl e"
    by (simp_all add: partial_meter_def)
  have e1: "read_audio (mono_env failing_meter [1/2, 1/2] 48000) ''a.wav'' = Inr ([1/2, 1/2], 48000)
     \<and> pyln_Meter (mono_env failing_meter [1/2, 1/2] 48000) = (\<lambda>rate. Inr failing_meter)"
    by (simp add: mono_env_def)
  have F: "(\<lambda>rate::int. (Inr failing_meter :: py_error + meter)) 48000 = Inr failing_meter" by simp
  have P: "(\<lambda>rate::int. (Inr partial_meter :: py_error + meter)) 48000 = Inr partial_meter" by simp
  note tf = r128_failure_policy [OF ne F]
  note tp = r128_failure_policy [OF ne P]
  have a: "r128_loudness_and_lra (\<lambda>rate. Inr failing_meter) [1/2, 1/2] 48000 = Inl ValueError"
    using tf f by blast
  have b: "analyze_file (mono_env failing_meter [1/2, 1/2] 48000) ''a.wav'' = Inl ValueError"
    using tf f e1 by blast
  have c: "r128_loudness_and_lra (\<lambda>rate. Inr partial_meter) [1/2, 1/2] 48000
       = Inr (Fin (- 23), None, None, None)"
    using tp p ps pm pr by blast
  show ?thesis using ne f a b p ps pm pr c by blast
qed

lemma integrated_loudness_passed_through:
  assumes rd: "read_audio E path = Inr (y, sr)" and ne: "y \<noteq> []"
    and M: "pyln_Meter E sr = Inr m" and i: "integrated_loudness m y = Inr v"
  shows "(\<exists>L_s L_m LRA. r128_loudness_and_lra (pyln_Meter E) y sr = Inr (v, L_s, L_m, LRA))
       \<and> (\<exists>row. analyze_file E path = Inr row \<and> r_lufs row = v)"
proof -
  obtain L_s L_m LRA where r: "r128_loudness_and_lra (pyln_Meter E) y sr = Inr (v, L_s, L_m, LRA)"
    using M i by (auto simp: r128_loudness_and_lra_def Let_def)
  obtain s where s: "snr_db y sr = Inr s" using snr_db_nonempty_returns [OF ne] by blast
  have "\<exists>row. analyze_file E path = Inr row \<and> r_lufs row = v"
    using rd ne r s by (simp add: analyze_file_def peak_dbfs_def Let_def)
  then show ?thesis using r by blast
qed

text \<open>
  Claim C5, evaluated on two seconds of digital silence at 48 kHz (the calibration file
  \<^verbatim>\<open>silence.wav\<close>): the integrated loudness is handed on as the meter returns it, with
  no finiteness check of the kind applied to the loudness range, so minus infinity
  reaches the caller of \<open>r128_loudness_and_lra\<close> and the row of \<open>analyze_file\<close>.
\<close>

theorem integrated_loudness_silence:
  "read_audio (mono_env silence_meter (replicate 96000 0) 48000) ''silence.wav''
     = Inr (replicate 96000 0, 48000)
   \<and> replicate 96000 (0::real) \<noteq> []
   \<and> integrated_loudness silence_meter (replicate 96000 0) = Inr NegInf
   \<and> \<not> isfinite NegInf
   \<and> r128_loudness_and_lra (\<lambda>rate. Inr silence_meter) (replicate 96000 0) 48000
       = Inr (NegInf, None, None, None)
   \<and> (\<exists>row. analyze_file (mono_env silence_meter (replicate 96000 0) 48000) ''silence.wav'' = Inr row
         \<and> r_lufs row = NegInf)"
proof -
  let ?E = "mono_env silence_meter (replicate 96000 0) 48000"
  have rd: "read_audio ?E ''silence.wav'' = Inr (replicate 96000 0, 48000)"
    by (simp add: mono_env_def)
  have ne: "replicate 96000 (0::real) \<noteq> []" by simp
  have M: "pyln_Meter ?E 48000 = Inr silence_meter" by (simp add: mono_env_def)
  have i: "integrated_loudness silence_meter (replicate 96000 0) = Inr NegInf"
    by (simp add: silence_meter_def)
  have r: "r128_loudness_and_lra (\<lambda>rate. Inr silence_meter) (replicate 96000 0) 48000
       = Inr (NegInf, None, None, None)"
    by (simp add: r128_loudness_and_lra_def silence_meter_def)
  show ?thesis
    using rd ne i r integrated_loudness_passed_through [OF rd ne M i] by simp
qed

section \<open>Properties of the per-channel analysis\<close>

lemma column_nonempty: "mc_frames ym \<noteq> [] \<Longrightarrow> column ym c \<noteq> []"
  by (simp add: column_def)

lemma channel_metrics_returns:
  assumes "mc_frames ym \<noteq> []"
  shows "\<exists>r. channel_metrics Meter ym sr c = Inr r
           \<and> ch r = c
           \<and> peak_dbfs (column ym c) = Inr (ch_peak_dbfs r)
           \<and> ch_rms_dbfs r = rms_dbfs (column ym c)"
  using column_nonempty [OF assms, of c]
  by (auto simp: channel_metrics_def peak_dbfs_def Let_def split: sum.splits prod.splits)

lemma channel_rows_returns:
  assumes "mc_frames ym \<noteq> []"
  shows "\<exists>rows. channel_rows Meter ym sr cs = Inr rows
           \<and> length rows = length cs
           \<and> (\<forall>k < length cs. peak_dbfs (column ym (cs ! k)) = Inr (ch_peak_dbfs (rows ! k))
                              \<and> ch_rms_dbfs (rows ! k) = rms_dbfs (column ym (cs ! k)))"
proof (induction cs)
  case Nil
  show ?case by simp
next
  case (Cons c cs)
  from channel_metrics_returns [OF assms, of Meter sr c]
  obtain r where r: "channel_metrics Meter ym sr c = Inr r"
    "peak_dbfs (column ym c) = Inr (ch_peak_dbfs r)" "ch_rms_dbfs r = rms_dbfs (column ym c)"
    by blast
  from Cons obtain rows where rows: "channel_rows Meter ym sr cs = Inr rows"
    "length rows = length cs"
    "\<forall>k < length cs. peak_dbfs (column ym (cs ! k)) = Inr (ch_peak_dbfs (rows ! k))
                              \<and> ch_rms_dbfs (rows ! k) = rms_dbfs (column ym (cs ! k))"
    by blast
  have "channel_rows Meter ym sr (c # cs) = Inr (r # rows)" using r(1) rows(1) by simp
  moreover have "length (r # rows) = length (c # cs)" using rows(2) by simp
  moreover have "\<forall>k < length (c # cs).
       peak_dbfs (column ym ((c # cs) ! k)) = Inr (ch_peak_dbfs ((r # rows) ! k))
       \<and> ch_rms_dbfs ((r # rows) ! k) = rms_dbfs (column ym ((c # cs) ! k))"
  proof (intro allI impI)
    fix k assume "k < length (c # cs)"
    then show "peak_dbfs (column ym ((c # cs) ! k)) = Inr (ch_peak_dbfs ((r # rows) ! k))
       \<and> ch_rms_dbfs ((r # rows) ! k) = rms_dbfs (column ym ((c # cs) ! k))"
      using r(2,3) rows(3) by (cases k) auto
  qed
  ultimately show ?case by blast
qed

lemma enumerate_filter_fst:
  "map fst (filter (\<lambda>(i, r). P r) (enumerate n xs)) = filter (\<lambda>i. P (xs ! (i - n))) [n..<n + length xs]"
proof (induction xs arbitrary: n)
  case Nil
  show ?case by simp
next
  case (Cons x xs)
  have tl: "filter (\<lambda>i. P ((x # xs) ! (i - n))) [Suc n..<Suc n + length xs]
        = filter (\<lambda>i. P (xs ! (i - Suc n))) [Suc n..<Suc n + length xs]"
  proof (rule filter_cong [OF refl])
    fix i assume "i \<in> set [Suc n..<Suc n + length xs]"
    then have "i - n = Suc (i - Suc n)" by auto
    then show "P ((x # xs) ! (i - n)) = P (xs ! (i - Suc n))" by simp
  qed
  have up: "[n..<n + length (x # xs)] = n # [Suc n..<Suc n + length xs]"
    by (simp add: upt_rec)
  have "map fst (filter (\<lambda>(i, r). P r) (enumerate n (x # xs)))
        = (if P x then [n] else []) @ map fst (filter (\<lambda>(i, r). P r) (enumerate (Suc n) xs))"
    by simp
  also have "\<dots> = (if P x then [n] else []) @ filter (\<lambda>i. P (xs ! (i - Suc n))) [Suc n..<Suc n + length xs]"
    by (simp only: Cons)
  also have "\<dots> = (if P x then [n] else []) @ filter (\<lambda>i. P ((x # xs) ! (i - n))) [Suc n..<Suc n + length xs]"
    by (simp only: tl)
  also have "\<dots> = filter (\<lambda>i. P ((x # xs) ! (i - n))) (n # [Suc n..<Suc n + length xs])"
    by simp
  finally show ?case by (simp only: up)
qed

lemma silent_idx_eq: "silent_idx rows = filter (\<lambda>i. is_silent_row (rows ! i)) [0..<length rows]"
  using enumerate_filter_fst [of is_silent_row 0 rows] by (simp add: silent_idx_def)

lemma silent_idx_ascending: "sorted_wrt (<) (silent_idx rows)"
  unfolding silent_idx_eq by (rule sorted_wrt_filter) simp

lemma silent_channels_with_frames:
  assumes shape: "\<forall>f \<in> set (mc_frames y_multi). length f = nchan y_multi"
    and ne: "mc_frames y_multi \<noteq> []"
  shows "\<exists>rows extra. per_channel_metrics Meter y_multi sr = Inr (rows, extra)
       \<and> length rows = nchan y_multi
       \<and> (\<forall>i. i \<in> set (silent_channels extra) \<longleftrightarrow>
              i < nchan y_multi
              \<and> (pf_less (rms_dbfs (column y_multi i)) (- 80)
                 \<or> (\<exists>pk. peak_dbfs (column y_multi i) = Inr pk \<and> pf_less pk (- 60))))
       \<and> sorted_wrt (<) (silent_channels extra)
       \<and> distinct (silent_channels extra)"
proof -
  let ?C = "nchan y_multi"
  from channel_rows_returns [OF ne, of Meter sr "[0..<?C]"]
  obtain rows where rows: "channel_rows Meter y_multi sr [0..<?C] = Inr rows"
    "length rows = ?C"
    "\<forall>k < ?C. peak_dbfs (column y_multi k) = Inr (ch_peak_dbfs (rows ! k))
               \<and> ch_rms_dbfs (rows ! k) = rms_dbfs (column y_multi k)"
    by auto
  define extra where "extra =
     \<lparr>lr_corr = (if 2 \<le> ?C then stereo_corr y_multi else None),
      channel_imbalance_db = (if 2 \<le> ?C then stereo_imbalance y_multi else None),
      silent_channels = silent_idx rows\<rparr>"
  have res: "per_channel_metrics Meter y_multi sr = Inr (rows, extra)"
    using rows(1) by (simp add: per_channel_metrics_def extra_def)
  have sc: "silent_channels extra = silent_idx rows" by (simp add: extra_def)
  have mem: "\<forall>i. i \<in> set (silent_channels extra) \<longleftrightarrow>
              i < ?C
              \<and> (pf_less (rms_dbfs (column y_multi i)) (- 80)
                 \<or> (\<exists>pk. peak_dbfs (column y_multi i) = Inr pk \<and> pf_less pk (- 60)))"
  proof
    fix i
    show "i \<in> set (silent_channels extra) \<longleftrightarrow>
              i < ?C
              \<and> (pf_less (rms_dbfs (column y_multi i)) (- 80)
                 \<or> (\<exists>pk. peak_dbfs (column y_multi i) = Inr pk \<and> pf_less pk (- 60)))"
    proof (cases "i < ?C")
      case False
      then show ?thesis using rows(2) by (simp add: sc silent_idx_eq)
    next
      case True
      then have "peak_dbfs (column y_multi i) = Inr (ch_peak_dbfs (rows ! i))"
        and "ch_rms_dbfs (rows ! i) = rms_dbfs (column y_multi i)"
        using rows(3) by auto
      then show ?thesis using True rows(2) by (simp add: sc silent_idx_eq is_silent_row_def)
    qed
  qed
  have asc: "sorted_wrt (<) (silent_channels extra)" unfolding sc by (rule silent_idx_ascending)
  have dis: "distinct (silent_channels extra)"
    unfolding sc silent_idx_eq by (rule distinct_filter) simp
  show ?thesis using res rows(2) mem asc dis by blast
qed

lemma log10_eps: "log 10 eps = - 12"
proof -
  have h: "eps = 10 powr (- 12)" by (simp add: eps_def powr_minus_divide)
  have "log 10 eps = log 10 (10 powr (- 12))" by (simp only: h)
  also have "\<dots> = - 12" by (rule log_powr_cancel) simp_all
  finally show ?thesis .
qed

lemma columns_half_silent:
  "column half_silent 0 = [1/2, - (1/2)]" "column half_silent 1 = [0, 0]"
  by (simp_all add: column_def half_silent_def)

lemma rms_lin_half: "rms_lin [1/2, - (1/2)] = 1/2"
proof -
  have "np_mean (map (\<lambda>v. v ^ 2) [1/2, - (1/2) :: real]) = (1/2) ^ 2"
    by (simp add: np_mean_def power2_eq_square)
  then show ?thesis unfolding rms_lin_def by (simp only: real_sqrt_abs)
qed

lemma level_half_not_silent: "- 60 \<le> 20 * log 10 (1/2 + eps)"
proof -
  have "(1::real) / 10 \<le> 1/2 + eps" using eps_pos by simp
  then have "log 10 (1 / 10) \<le> log 10 (1/2 + eps)" by (subst log_le_cancel_iff) simp_all
  moreover have "log 10 (1 / 10 :: real) = - 1" by (simp add: log_divide)
  ultimately show ?thesis by simp
qed

lemma channel_rows_no_frames:
  assumes "mc_frames ym = []" and "cs \<noteq> []"
  shows "channel_rows Meter ym sr cs = Inl ValueError"
proof -
  obtain c cs' where cs: "cs = c # cs'" using assms(2) by (cases cs) auto
  have "column ym c = []" using assms(1) by (simp add: column_def)
  then have "channel_metrics Meter ym sr c = Inl ValueError"
    by (simp add: channel_metrics_def peak_dbfs_def)
  then show ?thesis by (simp add: cs)
qed

text \<open>
  What the dead-channel detection does on every buffer: \<open>per_channel_metrics\<close> either
  raises \<^verbatim>\<open>ValueError\<close>, which happens only for a buffer with channels but without
  frames, or returns one row per channel, and then index \<open>i\<close> is in \<open>silent_channels\<close>
  exactly when \<open>i\<close> is a channel whose RMS level is below -80 dBFS or whose peak level is
  below -60 dBFS; the list is strictly ascending, hence without duplicates.
\<close>

lemma silent_channels_flagged:
  assumes shape: "list_all (\<lambda>f. length f = nchan y_multi) (mc_frames y_multi)"
  shows "(per_channel_metrics Meter y_multi sr = Inl ValueError
            \<and> mc_frames y_multi = [] \<and> 0 < nchan y_multi)
       \<or> (\<exists>rows extra. per_channel_metrics Meter y_multi sr = Inr (rows, extra)
             \<and> length rows = nchan y_multi
             \<and> (\<forall>i. i \<in> set (silent_channels extra) \<longleftrightarrow>
                    i < nchan y_multi
                    \<and> (pf_less (rms_dbfs (column y_multi i)) (- 80)
                       \<or> (\<exists>pk. peak_dbfs (column y_multi i) = Inr pk \<and> pf_less pk (- 60))))
             \<and> sorted_wrt (<) (silent_channels extra)
             \<and> distinct (silent_channels extra))"
proof (cases "mc_frames y_multi = []")
  case False
  have "\<forall>f \<in> set (mc_frames y_multi). length f = nchan y_multi"
    using shape by (simp add: list_all_iff)
  then show ?thesis using silent_channels_with_frames [OF _ False, of Meter sr] by blast
next
  case True
  show ?thesis
  proof (cases "nchan y_multi = 0")
    case False
    then have "[0..<nchan y_multi] \<noteq> []" by simp
    then have "channel_rows Meter y_multi sr [0..<nchan y_multi] = Inl ValueError"
      by (rule channel_rows_no_frames [OF True])
    then have "per_channel_metrics Meter y_multi sr = Inl ValueError"
      by (simp add: per_channel_metrics_def)
    then show ?thesis using True False by simp
  next
    case C0: True
    have "per_channel_metrics Meter y_multi sr
          = Inr ([], \<lparr>lr_corr = None, channel_imbalance_db = None, silent_channels = []\<rparr>)"
      by (simp add: per_channel_metrics_def C0 silent_idx_def)
    then show ?thesis using C0 by simp
  qed
qed

text \<open>Of the two channels of \<open>half_silent\<close> exactly channel 1 is flagged.\<close>

lemma silent_channels_half_silent:
  "list_all (\<lambda>f. length f = nchan half_silent) (mc_frames half_silent)
   \<and> mc_frames half_silent \<noteq> []
   \<and> (\<exists>rows extra. per_channel_metrics (\<lambda>rate. Inr partial_meter) half_silent 48000 = Inr (rows, extra)
         \<and> length rows = 2 \<and> set (silent_channels extra) = {1}
         \<and> sorted_wrt (<) (silent_channels extra))"
proof -
  have shape: "list_all (\<lambda>f. length f = nchan half_silent) (mc_frames half_silent)"
    by (simp add: half_silent_def)
  have ne: "mc_frames half_silent \<noteq> []" by (simp add: half_silent_def)
  have n2: "nchan half_silent = 2" by (simp add: half_silent_def)
  have c0: "\<not> (pf_less (rms_dbfs (column half_silent 0)) (- 80)
              \<or> (\<exists>pk. peak_dbfs (column half_silent 0) = Inr pk \<and> pf_less pk (- 60)))"
    using level_half_not_silent
    by (simp add: columns_half_silent rms_dbfs_def rms_lin_half peak_dbfs_def peak_lin_def np_max_def)
  have c1: "pf_less (rms_dbfs (column half_silent 1)) (- 80)"
    unfolding columns_half_silent(2)
    by (simp add: rms_dbfs_def rms_lin_def np_mean_def log10_eps)
  from silent_channels_flagged [OF shape, of "\<lambda>rate. Inr partial_meter" 48000] ne
  obtain rows extra where r: "per_channel_metrics (\<lambda>rate. Inr partial_meter) half_silent 48000 = Inr (rows, extra)"
    "length rows = nchan half_silent"
    "\<forall>i. i \<in> set (silent_channels extra) \<longleftrightarrow>
              i < nchan half_silent
              \<and> (pf_less (rms_dbfs (column half_silent i)) (- 80)
                 \<or> (\<exists>pk. peak_dbfs (column half_silent i) = Inr pk \<and> pf_less pk (- 60)))"
    "sorted_wrt (<) (silent_channels extra)"
    by blast
  have "set (silent_channels extra) = {1}"
  proof (rule set_eqI)
    fix i
    have "i < 2 \<longleftrightarrow> i = 0 \<or> i = (1::nat)" by auto
    then show "i \<in> set (silent_channels extra) \<longleftrightarrow> i \<in> {1}"
      using r(3) c0 c1 n2 by auto
  qed
  then show ?thesis using shape ne r(1,2,4) n2 by auto
qed

text \<open>
  Claim C9, evaluated on the stereo buffer without frames: both columns are empty, so
  \<open>peak_dbfs\<close> raises \<^verbatim>\<open>ValueError\<close> for channel 0 (and \<open>rms_dbfs\<close> is NaN), the
  exception leaves \<open>per_channel_metrics\<close>, and no collection of silent channels is
  returned, where the claim has the channels of every multi-channel buffer classified.
\<close>

theorem per_channel_metrics_no_frames:
  "list_all (\<lambda>f. length f = nchan no_frames) (mc_frames no_frames)
   \<and> column no_frames 0 = [] \<and> column no_frames 1 = []
   \<and> peak_dbfs (column no_frames 0) = Inl ValueError
   \<and> rms_dbfs (column no_frames 0) = NaN
   \<and> per_channel_metrics Meter no_frames sr = Inl ValueError"
proof -
  have c: "column no_frames 0 = []" "column no_frames 1 = []"
    by (simp_all add: column_def no_frames_def)
  have f: "mc_frames no_frames = []" by (simp add: no_frames_def)
  have "[0..<nchan no_frames] \<noteq> []" by (simp add: no_frames_def)
  then have "channel_rows Meter no_frames sr [0..<nchan no_frames] = Inl ValueError"
    by (rule channel_rows_no_frames [OF f])
  then have r: "per_channel_metrics Meter no_frames sr = Inl ValueError"
    by (simp add: per_channel_metrics_def)
  show ?thesis using c r by (simp add: f peak_dbfs_def rms_dbfs_def)
qed

section \<open>Properties of the spectral SNR path\<close>

lemma nfft_of_eqI:
  assumes "2 ^ e \<le> min n 262144" "min n 262144 < 2 ^ (e + 1)"
  shows "nfft_of n = 2 ^ e"
proof -
  have "\<lfloor>log (real (2::nat)) (real (min n 262144))\<rfloor> = int e"
    using assms by (intro floor_log_nat_eq_if) simp_all
  then show ?thesis by (simp add: nfft_of_def)
qed

lemma nfft_of_bounds:
  assumes "0 < n"
  shows "\<exists>e. nfft_of n = 2 ^ e \<and> 2 ^ e \<le> min n 262144 \<and> min n 262144 < 2 * 2 ^ e"
proof -
  let ?m = "min n 262144"
  have m: "0 < ?m" using assms by simp
  define e where "e = nat \<lfloor>log 2 (real ?m)\<rfloor>"
  have "1 \<le> real ?m" using m by linarith
  then have "0 \<le> log 2 (real ?m)" by simp
  then have fl: "\<lfloor>log (real (2::nat)) (real ?m)\<rfloor> = int e" by (simp add: e_def)
  have "2 ^ e \<le> ?m \<and> ?m < 2 ^ (e + 1)"
    using fl m floor_log_nat_eq_powr_iff [of 2 ?m e] by simp
  moreover have "nfft_of n = 2 ^ e" by (simp add: nfft_of_def e_def)
  ultimately show ?thesis by auto
qed

lemma length_psd_of: "length (psd_of y) = nfft_of (length y) div 2 + 1"
  by (simp add: psd_of_def Let_def)

lemma psd_of_dc: "psd_of y ! 0 = 0"
  by (simp add: psd_of_def Let_def)

lemma np_argmax_max:
  assumes "xs \<noteq> []"
  shows "np_argmax xs < length xs" and "xs ! np_argmax xs = np_max xs"
    and "\<forall>k < length xs. xs ! k \<le> xs ! np_argmax xs"
    and "\<forall>k < np_argmax xs. xs ! k < xs ! np_argmax xs"
proof -
  let ?P = "\<lambda>v. v \<noteq> np_max xs"
  have mem: "np_max xs \<in> set xs" unfolding np_max_def using assms by (intro Max_in) auto
  have "takeWhile ?P xs \<noteq> xs"
  proof
    assume "takeWhile ?P xs = xs"
    then have "\<forall>v \<in> set xs. ?P v" by (metis set_takeWhileD)
    then show False using mem by blast
  qed
  then have lt: "length (takeWhile ?P xs) < length xs"
    using length_takeWhile_le [of ?P xs] by (metis takeWhile_eq_take le_neq_implies_less take_all order_refl)
  then show a: "np_argmax xs < length xs" by (simp add: np_argmax_def)
  have "\<not> ?P (xs ! length (takeWhile ?P xs))" using lt by (rule nth_length_takeWhile)
  then show b: "xs ! np_argmax xs = np_max xs" by (simp add: np_argmax_def)
  show c: "\<forall>k < length xs. xs ! k \<le> xs ! np_argmax xs"
    unfolding b np_max_def by (auto intro: Max_ge)
  show "\<forall>k < np_argmax xs. xs ! k < xs ! np_argmax xs"
  proof (intro allI impI)
    fix k assume k: "k < np_argmax xs"
    then have "xs ! k \<in> set (takeWhile ?P xs)"
      unfolding np_argmax_def by (metis nth_mem takeWhile_nth)
    then have "xs ! k \<noteq> np_max xs" by (metis set_takeWhileD)
    moreover have "xs ! k \<le> np_max xs" using c k a b by auto
    ultimately show "xs ! k < xs ! np_argmax xs" using b by simp
  qed
qed

lemma sum_list_slice:
  "sum_list (slice xs a b) = (\<Sum>k \<in> {a..<min b (length xs)}. (xs ! k :: real))"
proof (cases "a \<le> min b (length xs)")
  case False
  then have A: "slice xs a b = []" by (auto simp: slice_def)
  have B: "{a..<min b (length xs)} = {}" using False by auto
  show ?thesis unfolding A B by simp
next
  case True
  let ?zs = "slice xs a b"
  have len: "length ?zs = min b (length xs) - a" by (auto simp: slice_def)
  have nth: "\<And>i. i < length ?zs \<Longrightarrow> ?zs ! i = xs ! (a + i)"
    using True by (simp add: slice_def)
  have "sum_list ?zs = (\<Sum>i = 0..<length ?zs. ?zs ! i)" by (rule sum_list_sum_nth)
  also have "\<dots> = (\<Sum>i = 0..<length ?zs. xs ! (a + i))" using nth by simp
  also have "\<dots> = (\<Sum>k = 0 + a..<length ?zs + a. xs ! k)"
    unfolding sum.shift_bounds_nat_ivl [of "(!) xs" 0 a "length ?zs"]
    by (simp only: add.commute)
  also have "length ?zs + a = min b (length xs)" using True len by simp
  finally show ?thesis by simp
qed

lemma tone_sig_eq:
  "tone_sig psd = (\<Sum>k \<in> {max 1 (np_argmax psd - 1)..<min (np_argmax psd + 2) (length psd)}. psd ! k)"
  by (simp add: tone_sig_def Let_def sum_list_slice)

text \<open>
  Claim C3, as the code has it: for a non-empty buffer that reaches the spectral method,
  the analysis length is a power of two, at most \<open>min n 262144\<close> and more than half of
  it.  Below 4096 the result is NA.  Otherwise, with the power spectrum of the Hann-windowed
  samples whose DC bin is set to zero, the result is NA when the median of the non-DC
  bins is not positive or the peak bin is below 20 times that median, and else
  \<open>10 * log 10 (signal / (rest + eps))\<close>, where the signal is the sum over the peak bin
  and its neighbours other than the DC bin and the rest is the remaining power.
\<close>

theorem snr_spectral_fallback:
  assumes ne: "y \<noteq> []"
    and long: "py_int (0.5 * real_of_int sr) \<le> int (length y)"
    and td: "snr_time_domain y sr = None"
  shows "snr_db y sr = snr_spectral y
       \<and> (\<exists>e. nfft_of (length y) = 2 ^ e)
       \<and> nfft_of (length y) \<le> min (length y) 262144
       \<and> min (length y) 262144 < 2 * nfft_of (length y)
       \<and> snr_spectral y =
           (if nfft_of (length y) < 4096 then Inr None
            else if np_median (drop 1 (psd_of y)) \<le> 0
                    \<or> psd_of y ! np_argmax (psd_of y) < 20 * np_median (drop 1 (psd_of y))
                 then Inr None
                 else Inr (Some (10 * log 10 (tone_sig (psd_of y)
                                   / (sum_list (psd_of y) - tone_sig (psd_of y) + eps)))))
       \<and> length (psd_of y) = nfft_of (length y) div 2 + 1
       \<and> psd_of y ! 0 = 0
       \<and> np_argmax (psd_of y) < length (psd_of y)
       \<and> (\<forall>k < length (psd_of y). psd_of y ! k \<le> psd_of y ! np_argmax (psd_of y))
       \<and> tone_sig (psd_of y) =
           (\<Sum>k \<in> {max 1 (np_argmax (psd_of y) - 1)
                    ..<min (np_argmax (psd_of y) + 2) (length (psd_of y))}. psd_of y ! k)"
proof -
  have n: "0 < length y" using ne by simp
  have a: "snr_db y sr = snr_spectral y" using long td by (simp add: snr_db_def)
  from nfft_of_bounds [OF n] obtain e where e: "nfft_of (length y) = 2 ^ e"
    "2 ^ e \<le> min (length y) 262144" "min (length y) 262144 < 2 * 2 ^ e" by blast
  have b: "\<exists>e. nfft_of (length y) = 2 ^ e" using e(1) by blast
  have c: "nfft_of (length y) \<le> min (length y) 262144" using e(1,2) by simp
  have d: "min (length y) 262144 < 2 * nfft_of (length y)" using e(1,3) by simp
  have f: "snr_spectral y =
           (if nfft_of (length y) < 4096 then Inr None
            else if np_median (drop 1 (psd_of y)) \<le> 0
                    \<or> psd_of y ! np_argmax (psd_of y) < 20 * np_median (drop 1 (psd_of y))
                 then Inr None
                 else Inr (Some (10 * log 10 (tone_sig (psd_of y)
                                   / (sum_list (psd_of y) - tone_sig (psd_of y) + eps)))))"
    using ne by (simp add: snr_spectral_def Let_def tone_noise_def)
  have pne: "psd_of y \<noteq> []" using length_psd_of [of y] by auto
  note am = np_argmax_max [OF pne]
  show ?thesis
    using a b c d f length_psd_of [of y] psd_of_dc [of y] am(1) am(3) tone_sig_eq [of "psd_of y"]
    by blast
qed

lemma frames_steady: "frames steady 20 = [1, 1, 1, 1, 1, 1, 1, 1, 1, 1]"
  by (simp add: frames_def frame_energies_def frame_len_20 py_range_def slice_def steady_def
      np_mean_def upt_conv_Cons)

lemma snr_time_domain_steady: "snr_time_domain steady 20 = None"
proof -
  have "np_percentile [1, 1, 1, 1, 1, 1, 1, 1, 1, 1] 90 = 1"
       "np_percentile [1, 1, 1, 1, 1, 1, 1, 1, 1, 1] 10 = 1"
    by (simp_all add: np_percentile_def Let_def)
  then have "dyn_db (frames steady 20) = 0"
    using eps_pos by (simp add: dyn_db_def frames_steady)
  then show ?thesis by (simp add: snr_time_domain_def Let_def)
qed

text \<open>
  The empty buffer at 1 Hz passes the length check and reaches the spectral method, where
  the conversion of \<^verbatim>\<open>np.log2(0)\<close> raises \<^verbatim>\<open>OverflowError\<close>.
\<close>

lemma snr_db_empty_buffer_raises:
  "\<not> int (length ([]::real list)) < py_int (0.5 * real_of_int 1)
   \<and> snr_time_domain [] 1 = None
   \<and> snr_db [] 1 = Inl OverflowError"
proof -
  have a: "\<not> int (length ([]::real list)) < py_int (0.5 * real_of_int 1)"
    by (simp add: py_int_def)
  have "frame_len 1 = 1" by (simp add: frame_len_def py_int_def)
  then have b: "snr_time_domain [] 1 = None"
    by (simp add: snr_time_domain_def frames_def frame_energies_def py_range_def Let_def)
  have "snr_db [] 1 = Inl OverflowError"
    using a b by (simp add: snr_db_def snr_spectral_def)
  then show ?thesis using a b by simp
qed

subsection \<open>A windowed comb\<close>

lemma length_comb_tone: "length comb_tone = 4096"
  by (simp add: comb_tone_def)

lemma nfft_of_4096: "nfft_of 4096 = 4096"
proof -
  have "nfft_of 4096 = 2 ^ 12" by (rule nfft_of_eqI) simp_all
  then show ?thesis by simp
qed

lemma cos_gt_minus_one:
  fixes t :: real
  assumes "- pi < t" "t < pi"
  shows "- 1 < cos t"
proof -
  have "0 < cos (t / 2)" using assms by (intro cos_gt_zero_pi) simp_all
  then have "0 < cos (t / 2) ^ 2" by simp
  moreover have "cos t = 2 * cos (t / 2) ^ 2 - 1" using cos_double_cos [of "t / 2"] by simp
  ultimately show ?thesis by linarith
qed

lemma hanning_nth:
  assumes "j < 4096"
  shows "np_hanning 4096 ! j = 1 / 2 + 1 / 2 * cos (pi * (2 * real j - 4095) / 4095)"
proof -
  have "np_hanning 4096 ! j = 1 / 2 + 1 / 2 * cos (pi * (1 - real (4096::nat) + 2 * real j) / (real (4096::nat) - 1))"
    using assms by (simp add: np_hanning_def)
  also have "(1 - real (4096::nat) + 2 * real j) = 2 * real j - 4095" by simp
  finally show ?thesis by simp
qed

lemma hanning_pos:
  assumes "0 < j" "j < 4095"
  shows "0 < np_hanning 4096 ! j"
proof -
  let ?t = "pi * (2 * real j - 4095) / 4095"
  have j: "0 < real j" "real j < 4095" using assms by simp_all
  have lo: "- 4095 < 2 * real j - 4095" and hi: "2 * real j - 4095 < 4095" using j by linarith+
  have "pi * (- 4095) < pi * (2 * real j - 4095)"
    using lo pi_gt_zero by (rule mult_strict_left_mono)
  then have "pi * (- 4095) / 4095 < ?t" by (rule divide_strict_right_mono) simp
  then have t1: "- pi < ?t" by simp
  have "pi * (2 * real j - 4095) < pi * 4095"
    using hi pi_gt_zero by (rule mult_strict_left_mono)
  then have "?t < pi * 4095 / 4095" by (rule divide_strict_right_mono) simp
  then have t2: "?t < pi" by simp
  have "- 1 < cos ?t" using t1 t2 by (rule cos_gt_minus_one)
  then show ?thesis using assms by (simp add: hanning_nth)
qed

lemma comb_c_pos: "0 < comb_c"
  using hanning_pos [of 1] by (simp add: comb_c_def)

lemma windowed_comb:
  "map (\<lambda>(a, b). a * b) (zip (take 4096 comb_tone) (np_hanning 4096)) = map comb_w [0..<4096]"
proof (rule nth_equalityI)
  show "length (map (\<lambda>(a, b). a * b) (zip (take 4096 comb_tone) (np_hanning 4096)))
        = length (map comb_w [0..<4096])"
    by (simp add: length_comb_tone np_hanning_def)
next
  fix j assume "j < length (map (\<lambda>(a, b). a * b) (zip (take 4096 comb_tone) (np_hanning 4096)))"
  then have j: "j < 4096" by (simp add: length_comb_tone)
  have hl: "length (np_hanning 4096) = 4096" by (simp add: np_hanning_def)
  have prod: "map (\<lambda>(a, b). a * b) (zip (take 4096 comb_tone) (np_hanning 4096)) ! j
        = comb_tone ! j * np_hanning 4096 ! j"
    using j hl by (simp add: length_comb_tone)
  have ct: "comb_tone ! j = (if j mod 1024 = 1
              then (if j = 1 then 1 else np_hanning 4096 ! 1 / (2 * np_hanning 4096 ! j))
              else 0)"
    using j by (simp add: comb_tone_def)
  have "comb_tone ! j * np_hanning 4096 ! j = comb_w j"
  proof (cases "j mod 1024 = 1")
    case False
    then show ?thesis by (simp add: ct comb_w_def)
  next
    case True
    show ?thesis
    proof (cases "j = 1")
      case True
      then show ?thesis unfolding ct by (simp add: comb_w_def comb_c_def)
    next
      case False
      have "0 < j" using True by (cases j) auto
      moreover have "j \<noteq> 4095" using True by auto
      ultimately have "0 < np_hanning 4096 ! j" using j by (intro hanning_pos) auto
      then show ?thesis using True False unfolding ct by (simp add: comb_w_def comb_c_def)
    qed
  qed
  then show "map (\<lambda>(a, b). a * b) (zip (take 4096 comb_tone) (np_hanning 4096)) ! j
        = map comb_w [0..<4096] ! j"
    using prod j by simp
qed

lemma rfft_as_complex:
  "rfft_re a k = Re (\<Sum>j<length a. of_real (a ! j) * cis (- (2 * pi * real j * real k / real (length a))))"
  "rfft_im a k = Im (\<Sum>j<length a. of_real (a ! j) * cis (- (2 * pi * real j * real k / real (length a))))"
  by (simp_all add: rfft_re_def rfft_im_def sum_negf)

lemma teeth: "{j. j < 4096 \<and> j mod 1024 = 1} = {1, 1025, 2049, 3073::nat}"
proof (intro set_eqI iffI)
  fix j :: nat
  assume "j \<in> {j. j < 4096 \<and> j mod 1024 = 1}"
  then have lt: "j < 4 * 1024" and m: "j mod 1024 = 1" by simp_all
  have d: "j div 1024 < 4" using lt by (rule less_mult_imp_div_less)
  have e: "j = 1024 * (j div 1024) + 1" using mult_div_mod_eq [of 1024 j] m by simp
  have "j div 1024 = 0 \<or> j div 1024 = 1 \<or> j div 1024 = 2 \<or> j div 1024 = 3"
    using d by linarith
  then have "j = 1 \<or> j = 1025 \<or> j = 2049 \<or> j = 3073" using e by linarith
  then show "j \<in> {1, 1025, 2049, 3073}" by simp
next
  fix j :: nat
  assume "j \<in> {1, 1025, 2049, 3073}"
  then have "j = 1 \<or> j = 1025 \<or> j = 2049 \<or> j = 3073" by simp
  then show "j \<in> {j. j < 4096 \<and> j mod 1024 = 1}" by (elim disjE) simp_all
qed

lemma sum_comb:
  fixes f :: "nat \<Rightarrow> complex"
  shows "(\<Sum>j<4096. of_real (comb_w j) * f j)
       = of_real comb_c * (2 * f 1 + f 1025 + f 2049 + f 3073)"
proof -
  have "(\<Sum>j<4096. of_real (comb_w j) * f j)
      = (\<Sum>j \<in> {j. j < 4096 \<and> j mod 1024 = 1}. of_real (comb_w j) * f j)"
    by (rule sum.mono_neutral_right) (auto simp: comb_w_def)
  also have "\<dots> = (\<Sum>j \<in> {1, 1025, 2049, 3073}. of_real (comb_w j) * f j)"
    by (simp only: teeth)
  also have "\<dots> = of_real comb_c * (2 * f 1 + f 1025 + f 2049 + f 3073)"
    by (simp add: comb_w_def algebra_simps)
  finally show ?thesis .
qed

lemma minus_i_power: "(- \<i>) ^ k = (- \<i>) ^ (k mod 4)"
proof -
  have "(- \<i>) ^ 4 = 1" by (simp add: power4_eq_xxxx)
  then have "((- \<i>) ^ 4) ^ (k div 4) = 1" by simp
  then have "(- \<i>) ^ (4 * (k div 4)) = 1" by (simp add: power_mult)
  moreover have "(- \<i>) ^ k = (- \<i>) ^ (4 * (k div 4) + k mod 4)" by simp
  ultimately show ?thesis by (simp only: power_add) simp
qed

lemma quarter_turn_sum:
  fixes k :: nat
  defines "z \<equiv> cis (- (pi * real k / 2))"
  shows "1 + z + z ^ 2 + z ^ 3 = (if 4 dvd k then 4 else 0)"
proof -
  have "- (pi * real k / 2) = real k * (- (pi / 2))" by simp
  then have "z = cis (real k * (- (pi / 2)))" by (simp only: z_def)
  also have "\<dots> = cis (- (pi / 2)) ^ k" by (rule DeMoivre [symmetric])
  also have "\<dots> = (- \<i>) ^ k" by simp
  also have "\<dots> = (- \<i>) ^ (k mod 4)" by (rule minus_i_power)
  finally have z: "z = (- \<i>) ^ (k mod 4)" .
  have "k mod 4 = 0 \<or> k mod 4 = 1 \<or> k mod 4 = 2 \<or> k mod 4 = 3" by presburger
  then show ?thesis
  proof (elim disjE)
    assume r: "k mod 4 = 0"
    then have "4 dvd k" by presburger
    then show ?thesis using r z by simp
  next
    assume r: "k mod 4 = 1"
    then have "\<not> 4 dvd k" by presburger
    then show ?thesis using r z by (simp add: power2_eq_square power3_eq_cube)
  next
    assume r: "k mod 4 = 2"
    then have "\<not> 4 dvd k" by presburger
    then show ?thesis using r z by (simp add: power2_eq_square power3_eq_cube)
  next
    assume r: "k mod 4 = 3"
    then have "\<not> 4 dvd k" by presburger
    then show ?thesis using r z by (simp add: power2_eq_square power3_eq_cube)
  qed
qed

lemma comb_factor:
  fixes c w z :: complex
  shows "c * (2 * w + w * z + w * z ^ 2 + w * z ^ 3) = c * w * (1 + (1 + z + z ^ 2 + z ^ 3))"
  by (simp add: algebra_simps)

lemma comb_spectrum:
  "(rfft_re (map comb_w [0..<4096]) k) ^ 2 + (rfft_im (map comb_w [0..<4096]) k) ^ 2
   = comb_c ^ 2 * (if 4 dvd k then 25 else 1)"
proof -
  let ?a = "map comb_w [0..<4096]"
  let ?f = "\<lambda>j. cis (- (2 * pi * real j * real k / 4096))"
  define z where "z = cis (- (pi * real k / 2))"
  define X where "X = (\<Sum>j<4096. of_real (comb_w j) * ?f j)"
  have "(\<Sum>j<length ?a. of_real (?a ! j) * cis (- (2 * pi * real j * real k / real (length ?a)))) = X"
    unfolding X_def by (rule sum.cong) simp_all
  then have parts: "rfft_re ?a k = Re X" "rfft_im ?a k = Im X"
    by (simp_all only: rfft_as_complex)
  have f1025: "?f 1025 = ?f 1 * z"
    unfolding z_def cis_mult by (rule arg_cong [where f = cis]) (simp add: field_simps)
  have f2049: "?f 2049 = ?f 1 * z ^ 2"
    unfolding z_def DeMoivre cis_mult by (rule arg_cong [where f = cis]) (simp add: field_simps)
  have f3073: "?f 3073 = ?f 1 * z ^ 3"
    unfolding z_def DeMoivre cis_mult by (rule arg_cong [where f = cis]) (simp add: field_simps)
  have "X = of_real comb_c * (2 * ?f 1 + ?f 1025 + ?f 2049 + ?f 3073)"
    unfolding X_def by (rule sum_comb)
  also have "\<dots> = of_real comb_c * (2 * ?f 1 + ?f 1 * z + ?f 1 * z ^ 2 + ?f 1 * z ^ 3)"
    by (simp only: f1025 f2049 f3073)
  also have "\<dots> = of_real comb_c * ?f 1 * (1 + (1 + z + z ^ 2 + z ^ 3))"
    by (rule comb_factor)
  also have "1 + z + z ^ 2 + z ^ 3 = (if 4 dvd k then 4 else 0)"
    unfolding z_def by (rule quarter_turn_sum)
  finally have X: "X = of_real comb_c * ?f 1 * (if 4 dvd k then 5 else 1)" by simp
  have "cmod X = \<bar>comb_c\<bar> * (if 4 dvd k then 5 else 1)"
    unfolding X by (simp add: norm_mult)
  then have "(cmod X) ^ 2 = comb_c ^ 2 * (if 4 dvd k then 25 else 1)"
    by (simp add: power_mult_distrib)
  then show ?thesis by (simp only: parts cmod_power2)
qed

lemma window_energy_pos: "0 < sum_list (map (\<lambda>v. v ^ 2) (np_hanning 4096)) + eps"
  using sum_list_sq_nonneg [of "np_hanning 4096"] eps_pos by linarith

lemma comb_unit_eq: "comb_unit = comb_c ^ 2 / (sum_list (map (\<lambda>v. v ^ 2) (np_hanning 4096)) + eps)"
  by (simp add: comb_unit_def comb_c_def)

lemma comb_unit_pos: "0 < comb_unit"
  unfolding comb_unit_eq using comb_c_pos window_energy_pos by simp

lemma psd_of_comb_tone: "psd_of comb_tone = map comb_psd [0..<2049]"
proof -
  let ?d = "sum_list (map (\<lambda>v. v ^ 2) (np_hanning 4096)) + eps"
  let ?a = "map comb_w [0..<4096]"
  have half: "(4096::nat) div 2 + 1 = 2049" by simp
  have "psd_of comb_tone
        = (map (\<lambda>k. ((rfft_re ?a k) ^ 2 + (rfft_im ?a k) ^ 2) / ?d) [0..<2049]) [0 := 0]"
    unfolding psd_of_def Let_def length_comb_tone nfft_of_4096 windowed_comb half ..
  also have "\<dots> = (map (\<lambda>k. comb_c ^ 2 * (if 4 dvd k then 25 else 1) / ?d) [0..<2049]) [0 := 0]"
    by (simp only: comb_spectrum)
  also have "\<dots> = map comb_psd [0..<2049]"
  proof (rule nth_equalityI)
    show "length ((map (\<lambda>k. comb_c ^ 2 * (if 4 dvd k then 25 else 1) / ?d) [0..<2049]) [0 := 0])
          = length (map comb_psd [0..<2049])" by simp
  next
    fix k assume "k < length ((map (\<lambda>k. comb_c ^ 2 * (if 4 dvd k then 25 else 1) / ?d) [0..<2049]) [0 := 0])"
    then have k: "k < 2049" by simp
    show "(map (\<lambda>k. comb_c ^ 2 * (if 4 dvd k then 25 else 1) / ?d) [0..<2049]) [0 := 0] ! k
          = map comb_psd [0..<2049] ! k"
    proof (cases "k = 0")
      case True
      then show ?thesis by (simp add: comb_psd_def)
    next
      case False
      then show ?thesis using k by (simp add: comb_psd_def comb_unit_eq)
    qed
  qed
  finally show ?thesis .
qed

lemma comb_psd_le: "comb_psd k \<le> 25 * comb_unit"
  using comb_unit_pos by (simp add: comb_psd_def)

lemma np_max_comb: "np_max (map comb_psd [0..<2049]) = 25 * comb_unit"
  unfolding np_max_def
proof (rule Max_eqI)
  show "finite (set (map comb_psd [0..<2049]))" by simp
  show "\<And>v. v \<in> set (map comb_psd [0..<2049]) \<Longrightarrow> v \<le> 25 * comb_unit"
    using comb_psd_le by auto
  have "comb_psd 4 = 25 * comb_unit" by (simp add: comb_psd_def)
  moreover have "comb_psd 4 \<in> set (map comb_psd [0..<2049])" by simp
  ultimately show "25 * comb_unit \<in> set (map comb_psd [0..<2049])" by simp
qed

lemma np_argmax_comb: "np_argmax (map comb_psd [0..<2049]) = 4"
proof -
  let ?P = "map comb_psd [0..<2049]"
  let ?pk = "np_argmax ?P"
  have ne: "?P \<noteq> []" by simp
  note am = np_argmax_max [OF ne]
  have top: "?P ! ?pk = 25 * comb_unit" using am(2) np_max_comb by simp
  have pk: "?pk < 2049" using am(1) by simp
  have v: "?P ! ?pk = comb_psd ?pk" using pk by simp
  have p4: "?P ! 4 = 25 * comb_unit" by (simp add: comb_psd_def)
  have "\<not> 4 < ?pk"
  proof
    assume "4 < ?pk"
    then have "?P ! 4 < ?P ! ?pk" using am(4) by blast
    then show False using p4 top by simp
  qed
  moreover have "\<not> ?pk < 4"
  proof
    assume "?pk < 4"
    then have "?pk = 0 \<or> ?pk = 1 \<or> ?pk = 2 \<or> ?pk = 3" by linarith
    then have "comb_psd ?pk = 0 \<or> comb_psd ?pk = comb_unit"
      by (elim disjE) (simp_all add: comb_psd_def)
    then show False using top v comb_unit_pos by auto
  qed
  ultimately show ?thesis by linarith
qed

lemma comb_psd_block:
  "comb_psd (4 * n + 1) = comb_unit" "comb_psd (4 * n + 2) = comb_unit"
  "comb_psd (4 * n + 3) = comb_unit" "comb_psd (4 * n + 4) = 25 * comb_unit"
proof -
  have "\<not> 4 dvd (4 * n + 1)" "\<not> 4 dvd (4 * n + 2)" "\<not> 4 dvd (4 * n + 3)" "4 dvd (4 * n + 4)"
    by presburger+
  then show "comb_psd (4 * n + 1) = comb_unit" "comb_psd (4 * n + 2) = comb_unit"
    "comb_psd (4 * n + 3) = comb_unit" "comb_psd (4 * n + 4) = 25 * comb_unit"
    by (simp_all add: comb_psd_def)
qed

lemma upt_block:
  "[Suc 0..<Suc (4 * Suc n)] = [Suc 0..<Suc (4 * n)] @ [4 * n + 1, 4 * n + 2, 4 * n + 3, 4 * n + 4]"
proof -
  have "[Suc 0..<Suc (4 * n) + 4] = [Suc 0..<Suc (4 * n)] @ [Suc (4 * n)..<Suc (4 * n) + 4]"
    by (rule upt_add_eq_append) simp
  moreover have "[Suc (4 * n)..<Suc (4 * n) + 4] = [4 * n + 1, 4 * n + 2, 4 * n + 3, 4 * n + 4]"
    by (simp add: upt_rec)
  moreover have "Suc (4 * n) + 4 = Suc (4 * Suc n)" by simp
  ultimately show ?thesis by simp
qed

lemma sum_comb_psd: "sum_list (map comb_psd [Suc 0..<Suc (4 * n)]) = 28 * real n * comb_unit"
proof (induction n)
  case 0
  show ?case by simp
next
  case (Suc n)
  have "sum_list (map comb_psd [4 * n + 1, 4 * n + 2, 4 * n + 3, 4 * n + 4]) = 28 * comb_unit"
    by (simp only: list.map sum_list.Cons sum_list.Nil comb_psd_block)
  then show ?case
    unfolding upt_block map_append sum_list_append Suc
    by (simp add: algebra_simps)
qed

lemma count_low_comb_psd:
  "length (filter (\<lambda>k. comb_psd k \<le> comb_unit) [Suc 0..<Suc (4 * n)]) = 3 * n"
proof (induction n)
  case 0
  show ?case by simp
next
  case (Suc n)
  have n25: "(25 * comb_unit \<le> comb_unit) = False" using comb_unit_pos by simp
  have "filter (\<lambda>k. comb_psd k \<le> comb_unit) [4 * n + 1, 4 * n + 2, 4 * n + 3, 4 * n + 4]
        = [4 * n + 1, 4 * n + 2, 4 * n + 3]"
    by (simp only: filter.simps comb_psd_block order_refl if_True n25 if_False)
  then show ?case
    unfolding upt_block filter_append length_append Suc
    by simp
qed

lemma sorted_low_block:
  fixes xs :: "real list"
  assumes lower: "\<forall>x \<in> set xs. u \<le> x"
    and i: "i < length (filter (\<lambda>x. x \<le> u) xs)"
  shows "sort xs ! i = u"
proof -
  let ?s = "sort xs"
  let ?Q = "\<lambda>x. x \<le> u"
  have cnt: "length (filter ?Q ?s) = length (filter ?Q xs)"
    by (simp add: filter_sort)
  have "i < length xs" using i length_filter_le [of ?Q xs] by linarith
  then have il: "i < length ?s" by simp
  have ge: "u \<le> ?s ! i" using lower il by (metis nth_mem set_sort)
  have "\<not> u < ?s ! i"
  proof
    assume gt: "u < ?s ! i"
    have "\<forall>x \<in> set (drop i ?s). \<not> ?Q x"
    proof
      fix x assume "x \<in> set (drop i ?s)"
      then obtain j where j: "j < length (drop i ?s)" "x = drop i ?s ! j"
        by (metis in_set_conv_nth)
      then have "x = ?s ! (i + j)" using il by simp
      moreover have "?s ! i \<le> ?s ! (i + j)"
        using j(1) by (intro sorted_nth_mono) simp_all
      ultimately show "\<not> ?Q x" using gt by simp
    qed
    then have "filter ?Q (drop i ?s) = []" by (simp add: filter_empty_conv)
    moreover have "filter ?Q ?s = filter ?Q (take i ?s) @ filter ?Q (drop i ?s)"
      by (metis append_take_drop_id filter_append)
    ultimately have "length (filter ?Q ?s) = length (filter ?Q (take i ?s))" by simp
    also have "\<dots> \<le> length (take i ?s)" by (rule length_filter_le)
    also have "\<dots> \<le> i" by simp
    finally show False using i cnt by simp
  qed
  then show ?thesis using ge by simp
qed

lemma drop_comb_psd: "drop 1 (map comb_psd [0..<2049]) = map comb_psd [Suc 0..<Suc (4 * 512)]"
proof -
  have "drop 1 (map comb_psd [0..<2049]) = map comb_psd [0 + 1..<2049]"
    unfolding drop_map drop_upt ..
  moreover have "(2049::nat) = Suc (4 * 512)" "(0::nat) + 1 = Suc 0" by simp_all
  ultimately show ?thesis by metis
qed

lemma median_comb: "np_median (drop 1 (map comb_psd [0..<2049])) = comb_unit"
proof -
  let ?xs = "map comb_psd [Suc 0..<Suc (4 * 512)]"
  have len: "length ?xs = 2048" by simp
  have lower: "\<forall>x \<in> set ?xs. comb_unit \<le> x"
    using comb_unit_pos by (auto simp: comb_psd_def)
  have "length (filter (\<lambda>x. x \<le> comb_unit) ?xs)
        = length (filter (\<lambda>k. comb_psd k \<le> comb_unit) [Suc 0..<Suc (4 * 512)])"
    unfolding filter_map length_map by (simp only: o_def)
  also have "\<dots> = 3 * 512" by (rule count_low_comb_psd)
  finally have cnt: "length (filter (\<lambda>x. x \<le> comb_unit) ?xs) = 1536" by simp
  have i1: "1023 < length (filter (\<lambda>x. x \<le> comb_unit) ?xs)" unfolding cnt by simp
  have i2: "1024 < length (filter (\<lambda>x. x \<le> comb_unit) ?xs)" unfolding cnt by simp
  have a: "sort ?xs ! 1023 = comb_unit" by (rule sorted_low_block [OF lower i1])
  have b: "sort ?xs ! 1024 = comb_unit" by (rule sorted_low_block [OF lower i2])
  have ls: "length (sort ?xs) = 2048" unfolding length_sort by (rule len)
  have "np_median ?xs = (sort ?xs ! (2048 div 2 - 1) + sort ?xs ! (2048 div 2)) / 2"
    unfolding np_median_def Let_def ls by simp
  also have "\<dots> = comb_unit" using a b by simp
  finally show ?thesis unfolding drop_comb_psd .
qed

lemma sum_list_comb: "sum_list (map comb_psd [0..<2049]) = 14336 * comb_unit"
proof -
  have "[0..<2049] = 0 # [Suc 0..<Suc (4 * 512)]"
    by (subst upt_rec) simp
  then have "sum_list (map comb_psd [0..<2049])
             = comb_psd 0 + sum_list (map comb_psd [Suc 0..<Suc (4 * 512)])"
    by (simp only: list.map sum_list.Cons)
  also have "\<dots> = 0 + 28 * real (512::nat) * comb_unit"
    unfolding sum_comb_psd by (simp add: comb_psd_def)
  finally show ?thesis by simp
qed

lemma tone_sig_comb: "tone_sig (map comb_psd [0..<2049]) = 27 * comb_unit"
proof -
  let ?P = "map comb_psd [0..<2049]"
  have "tone_sig ?P = (\<Sum>k \<in> {max 1 (4 - 1)..<min (4 + 2) (length ?P)}. ?P ! k)"
    unfolding tone_sig_eq np_argmax_comb ..
  also have "{max 1 (4 - 1)..<min (4 + 2) (length ?P)} = {3, 4, 5::nat}" by auto
  also have "(\<Sum>k \<in> {3, 4, 5::nat}. ?P ! k) = ?P ! 3 + ?P ! 4 + ?P ! 5" by simp
  also have "\<dots> = comb_psd 3 + comb_psd 4 + comb_psd 5" by simp
  also have "\<dots> = 27 * comb_unit" by (simp add: comb_psd_def)
  finally show ?thesis .
qed

lemma frame_energies_unit_frames:
  assumes "frame_len sr = 1"
  shows "frame_energies y sr = map (\<lambda>v. v ^ 2) y"
proof (rule nth_equalityI)
  show len: "length (frame_energies y sr) = length (map (\<lambda>v. v ^ 2) y)"
    by (simp add: frame_energies_def py_range_def assms)
  fix i assume "i < length (frame_energies y sr)"
  then have i: "i < length y" using len by simp
  have "slice y i (i + 1) = [y ! i]"
    using i by (simp add: slice_def take_Suc_conv_app_nth)
  then show "frame_energies y sr ! i = map (\<lambda>v. v ^ 2) y ! i"
    using i by (simp add: frame_energies_def py_range_def assms np_mean_def)
qed

lemma length_filter_imp:
  assumes "\<And>x. x \<in> set xs \<Longrightarrow> Q x \<Longrightarrow> R x"
  shows "length (filter Q xs) \<le> length (filter R xs)"
proof -
  have "filter Q xs = filter Q (filter R xs)"
    using assms by (induction xs) auto
  then show ?thesis by (metis length_filter_le)
qed

lemma frames_comb_tone: "length (frames comb_tone 20) \<le> 4"
proof -
  let ?g = "\<lambda>j. if j mod 1024 = 1
              then (if j = 1 then 1 else np_hanning 4096 ! 1 / (2 * np_hanning 4096 ! j))
              else (0::real)"
  have "frames comb_tone 20 = filter (\<lambda>e. 0 < e) (map (\<lambda>v. v ^ 2) (map ?g [0..<4096]))"
    unfolding frames_def frame_energies_unit_frames [OF frame_len_20] comb_tone_def ..
  then have "length (frames comb_tone 20)
        = length (filter (\<lambda>j. 0 < (?g j) ^ 2) [0..<4096])"
    by (simp only: map_map filter_map length_map o_def)
  also have "\<dots> \<le> length (filter (\<lambda>j. j mod 1024 = 1) [0..<4096])"
    by (rule length_filter_imp) (simp split: if_splits)
  also have "\<dots> = card ({j. j mod 1024 = 1} \<inter> set [0..<4096])"
    by (rule distinct_length_filter) simp
  also have "{j. j mod 1024 = 1} \<inter> set [0..<4096] = {j::nat. j < 4096 \<and> j mod 1024 = 1}"
    by auto
  also have "card {j::nat. j < 4096 \<and> j mod 1024 = 1} = 4"
    unfolding teeth by simp
  finally show ?thesis .
qed

lemma snr_time_domain_comb_tone: "snr_time_domain comb_tone 20 = None"
  using frames_comb_tone by (simp add: snr_time_domain_def Let_def)

lemma comb_tone_long: "\<not> int (length comb_tone) < py_int (0.5 * real_of_int 20)"
  by (simp add: length_comb_tone py_int_def)

lemma snr_spectral_comb_tone:
  "snr_spectral comb_tone = Inr (Some (10 * log 10 (27 * comb_unit / (14309 * comb_unit + eps))))"
proof -
  have "\<not> comb_unit \<le> 0" "\<not> 25 * comb_unit < 20 * comb_unit" using comb_unit_pos by simp_all
  moreover have "map comb_psd [0..<2049] ! 4 = 25 * comb_unit" by (simp add: comb_psd_def)
  moreover have "tone_noise (map comb_psd [0..<2049]) = 14309 * comb_unit + eps"
    unfolding tone_noise_def sum_list_comb tone_sig_comb by simp
  ultimately show ?thesis
    unfolding snr_spectral_def Let_def length_comb_tone nfft_of_4096 psd_of_comb_tone
      median_comb np_argmax_comb tone_sig_comb
    by simp
qed

text \<open>
  Claim C3 as stated fails on \<open>comb_tone\<close> at 20 Hz.  The buffer reaches the spectral
  method, its peak bin has 25 times the median power, the peak bin and its two neighbours
  hold \<open>27 * comb_unit\<close> and the remaining bins \<open>14309 * comb_unit\<close>; the code returns
  \<open>10 * log 10 (27 * comb_unit / (14309 * comb_unit + eps))\<close>, which is less than the stated
  \<open>10 * log 10 (signal / noise)\<close>.
\<close>

theorem snr_spectral_formula_counterexample:
  "\<not> int (length comb_tone) < py_int (0.5 * real_of_int 20)
   \<and> snr_time_domain comb_tone 20 = None
   \<and> nfft_of (length comb_tone) = 4096
   \<and> 0 < np_median (drop 1 (psd_of comb_tone))
   \<and> 20 * np_median (drop 1 (psd_of comb_tone)) < psd_of comb_tone ! np_argmax (psd_of comb_tone)
   \<and> tone_sig (psd_of comb_tone) = 27 * comb_unit
   \<and> sum_list (psd_of comb_tone) - tone_sig (psd_of comb_tone) = 14309 * comb_unit
   \<and> snr_db comb_tone 20 = Inr (Some (10 * log 10 (27 * comb_unit / (14309 * comb_unit + eps))))
   \<and> 10 * log 10 (27 * comb_unit / (14309 * comb_unit + eps))
       < 10 * log 10 (27 * comb_unit / (14309 * comb_unit))"
proof -
  have u: "0 < comb_unit" by (rule comb_unit_pos)
  have c: "nfft_of (length comb_tone) = 4096" by (simp only: length_comb_tone nfft_of_4096)
  have d: "0 < np_median (drop 1 (psd_of comb_tone))"
    unfolding psd_of_comb_tone median_comb by (rule u)
  have "map comb_psd [0..<2049] ! 4 = 25 * comb_unit" by (simp add: comb_psd_def)
  then have e: "20 * np_median (drop 1 (psd_of comb_tone))
                < psd_of comb_tone ! np_argmax (psd_of comb_tone)"
    unfolding psd_of_comb_tone median_comb np_argmax_comb using u by simp
  have f: "tone_sig (psd_of comb_tone) = 27 * comb_unit"
    unfolding psd_of_comb_tone by (rule tone_sig_comb)
  have g: "sum_list (psd_of comb_tone) - tone_sig (psd_of comb_tone) = 14309 * comb_unit"
    unfolding psd_of_comb_tone sum_list_comb tone_sig_comb by simp
  have h: "snr_db comb_tone 20 = Inr (Some (10 * log 10 (27 * comb_unit / (14309 * comb_unit + eps))))"
    using comb_tone_long snr_time_domain_comb_tone snr_spectral_comb_tone
    by (simp add: snr_db_def)
  have "27 * comb_unit / (14309 * comb_unit + eps) < 27 * comb_unit / (14309 * comb_unit)"
    using u eps_pos by (intro divide_strict_left_mono) (simp_all add: add_pos_pos)
  moreover have "0 < 27 * comb_unit / (14309 * comb_unit + eps)"
    using u eps_pos by (simp add: add_pos_pos)
  ultimately have "log 10 (27 * comb_unit / (14309 * comb_unit + eps))
                   < log 10 (27 * comb_unit / (14309 * comb_unit))"
    by (subst log_less_cancel_iff) simp_all
  then have i: "10 * log 10 (27 * comb_unit / (14309 * comb_unit + eps))
       < 10 * log 10 (27 * comb_unit / (14309 * comb_unit))" by simp
  show ?thesis using comb_tone_long snr_time_domain_comb_tone c d e f g h i by blast
qed

text \<open>
  Claim C3, witness: \<open>steady\<close> at 20 Hz has no dynamic range, reaches the spectral
  method with analysis length 8 and gets NA; \<open>comb_tone\<close> at 20 Hz has four frames of
  nonzero energy, reaches the spectral method with analysis length 4096 and gets a value.
\<close>

theorem snr_spectral_fallback_witness:
  "steady \<noteq> []
   \<and> py_int (0.5 * real_of_int 20) \<le> int (length steady)
   \<and> snr_time_domain steady 20 = None
   \<and> nfft_of (length steady) = 8
   \<and> snr_db steady 20 = Inr None
   \<and> comb_tone \<noteq> []
   \<and> py_int (0.5 * real_of_int 20) \<le> int (length comb_tone)
   \<and> snr_time_domain comb_tone 20 = None
   \<and> nfft_of (length comb_tone) = 4096
   \<and> snr_db comb_tone 20 = Inr (Some (10 * log 10 (27 * comb_unit / (14309 * comb_unit + eps))))"
proof -
  have ne: "steady \<noteq> []" by (simp add: steady_def)
  have long: "py_int (0.5 * real_of_int 20) \<le> int (length steady)"
    by (simp add: py_int_def steady_def)
  have nf: "nfft_of (length steady) = 2 ^ 3"
    by (rule nfft_of_eqI) (simp_all add: steady_def)
  have r: "snr_db steady 20 = Inr None"
    using snr_spectral_fallback [OF ne long snr_time_domain_steady] nf by simp
  have cne: "comb_tone \<noteq> []" using length_comb_tone by auto
  have clong: "py_int (0.5 * real_of_int 20) \<le> int (length comb_tone)"
    using comb_tone_long by simp
  have cnf: "nfft_of (length comb_tone) = 4096" by (simp only: length_comb_tone nfft_of_4096)
  have "snr_db comb_tone 20 = snr_spectral comb_tone"
    using snr_spectral_fallback [OF cne clong snr_time_domain_comb_tone] by blast
  then have cr: "snr_db comb_tone 20
      = Inr (Some (10 * log 10 (27 * comb_unit / (14309 * comb_unit + eps))))"
    by (simp only: snr_spectral_comb_tone)
  show ?thesis
    using ne long snr_time_domain_steady nf r cne clong snr_time_domain_comb_tone cnf cr by simp
qed

end
